theory Spec2Isabelle
  imports Main
begin

section \<open>Functional QA tool (src/tools/functional-qa.ts)\<close>

text \<open>
  A shallow embedding of \<^verbatim>\<open>functionalQATool\<close> and of the probes it calls. The headless
  browser is an external collaborator: it is modelled by a \<open>world\<close>, a record of functions
  that answer every driver call (throwing or returning), and by the part of the browser
  state the code can observe. The arrays \<^verbatim>\<open>qaResults\<close> and \<^verbatim>\<open>issues\<close>, which the probes
  mutate in place, are fields of the threaded state. A JavaScript exception is the left
  summand of a sum; the state survives it, as the arrays do in the source.
\<close>

subsection \<open>JavaScript strings\<close>

fun startsWith :: "string \<Rightarrow> string \<Rightarrow> bool" where
  "startsWith s [] = True"
| "startsWith [] (p # ps) = False"
| "startsWith (c # cs) (p # ps) = (c = p \<and> startsWith cs ps)"

text \<open>\<^verbatim>\<open>s.includes(p)\<close>: \<open>p\<close> occurs in \<open>s\<close> as a contiguous substring.\<close>

fun includesStr :: "string \<Rightarrow> string \<Rightarrow> bool" where
  "includesStr [] p = (p = [])"
| "includesStr (c # cs) p = (startsWith (c # cs) p \<or> includesStr cs p)"

text \<open>
  \<^verbatim>\<open>s.trim()\<close> on the ASCII white space and line terminators (tab, line feed, vertical
  tab, form feed, carriage return, space); the Unicode spaces beyond ASCII are not modelled.
\<close>

definition isSpace :: "char \<Rightarrow> bool" where
  "isSpace c = (c \<in> set [CHR 0x09, CHR 0x0A, CHR 0x0B, CHR 0x0C, CHR 0x0D, CHR 0x20])"

definition trim :: "string \<Rightarrow> string" where
  "trim s = rev (dropWhile isSpace (rev (dropWhile isSpace s)))"

definition digitChar :: "nat \<Rightarrow> char" where
  "digitChar n = ''0123456789'' ! (n mod 10)"

text \<open>The decimal text of a non-negative integer, as a template literal prints it.\<close>

fun showNat :: "nat \<Rightarrow> string" where
  "showNat n = (if n < 10 then [digitChar n] else showNat (n div 10) @ [digitChar n])"

declare showNat.simps [simp del]

definition showInt :: "int \<Rightarrow> string" where
  "showInt i = (if i < 0 then CHR ''-'' # showNat (nat (- i)) else showNat (nat i))"

subsection \<open>Data model\<close>

datatype severity = critical | major | minor

text \<open>
  The category literals of the source: \<^verbatim>\<open>'Connectivity'\<close>, \<^verbatim>\<open>'SEO'\<close>, \<^verbatim>\<open>'Content'\<close>,
  \<^verbatim>\<open>'JavaScript'\<close>, \<^verbatim>\<open>'Navigation'\<close>, \<^verbatim>\<open>'Forms'\<close>, \<^verbatim>\<open>'Accessibility'\<close>,
  \<^verbatim>\<open>'Responsive Design'\<close>, \<^verbatim>\<open>'User Flow'\<close>, \<^verbatim>\<open>'UI/UX'\<close>, \<^verbatim>\<open>'Performance'\<close>.
\<close>

datatype category =
  Connectivity | SEO | Content | JavaScript | Navigation | Forms | Accessibility
  | ResponsiveDesign | UserFlow | UIUX | Performance

fun categoryName :: "category \<Rightarrow> string" where
  "categoryName Connectivity = ''Connectivity''"
| "categoryName SEO = ''SEO''"
| "categoryName Content = ''Content''"
| "categoryName JavaScript = ''JavaScript''"
| "categoryName Navigation = ''Navigation''"
| "categoryName Forms = ''Forms''"
| "categoryName Accessibility = ''Accessibility''"
| "categoryName ResponsiveDesign = ''Responsive Design''"
| "categoryName UserFlow = ''User Flow''"
| "categoryName UIUX = ''UI/UX''"
| "categoryName Performance = ''Performance''"

datatype action = goto | click | type | wait | screenshot | verify

text \<open>One step of a user flow, as the zod schema validates it (\<open>timeout\<close> defaults to 5000).\<close>

record step =
  action :: action
  selector :: "string option"
  "value" :: "string option"
  expected :: "string option"
  timeout :: nat

record flow =
  name :: string
  flowSteps :: "step list"

text \<open>
  \<^verbatim>\<open>stepResult\<close>. \<open>verified\<close> holds \<^verbatim>\<open>actualValue\<close> and \<^verbatim>\<open>expectedValue\<close>, which only a
  \<^verbatim>\<open>verify\<close> step that ran to its end sets.
\<close>

record step_result =
  stepNumber :: nat
  stepAction :: action
  stepSelector :: "string option"
  stepValue :: "string option"
  stepPassed :: bool
  stepError :: "string option"
  verified :: "(string option \<times> string option) option"

text \<open>A link the navigation probe found broken: by its status, or by a thrown error.\<close>

datatype broken_link =
  BrokenStatus string "nat option"
| BrokenError string string

record form_info =
  formIndex :: nat
  formAction :: string
  formMethod :: string
  inputCount :: nat
  hasSubmitButton :: bool

record label_issue =
  labelElement :: string
  labelIssue :: string
  labelType :: string

record ui_problem =
  problemIssue :: string
  problemElement :: string
  problemFontSize :: "string option"
  problemSrc :: "string option"
  problemRecommendation :: string

record viewport_test =
  vtViewport :: string
  vtDimensions :: "string option"
  vtHasHorizontalScroll :: "bool option"
  vtHasOverlappingElements :: "bool option"
  vtPassed :: bool
  vtError :: "string option"

text \<open>
  The \<^verbatim>\<open>details\<close> object of a test result, one constructor per shape the source builds.
  Wall-clock readings (\<^verbatim>\<open>loadTime\<close>) and the raw metrics object are left out.
\<close>

datatype result_details =
  NoDetails
| ConnectivityDetails "nat option" "string option"
| TitleDetails string
| BrokenImagesDetails nat
| JsErrorsDetails nat "string list"
| AuthNote string
| NavigationDetails nat nat nat nat "broken_link list"
| FormDetails nat "form_info list"
| ResponsiveDetails "viewport_test list"
| UiDetails nat "ui_problem list"
| PerformanceDetails nat

text \<open>
  A test result. \<open>steps\<close> is present for user flows only. \<open>passed\<close> is the truthiness of
  the source's \<^verbatim>\<open>passed\<close> field, which is how the summary reads it.
\<close>

record test_result =
  testName :: string
  passed :: bool
  error :: "string option"
  steps :: "step_result list option"
  details :: result_details

datatype issue_details =
  NoIssueDetails
| JsErrorList "string list"
| BrokenLinkList "broken_link list"
| FormList "form_info list"
| LabelIssueList "label_issue list"
| FlowResult test_result
| UiProblem ui_problem

record issue_record =
  severity :: severity
  category :: category
  issue :: string
  recommendation :: string
  issueDetails :: issue_details

subsection \<open>The page as the probes see it\<close>

record dom_image =
  imgComplete :: bool
  imgNaturalHeight :: nat
  imgAlt :: "string option"
  imgSrc :: "string option"

text \<open>An \<^verbatim>\<open>a[href]\<close> element: its resolved \<^verbatim>\<open>href\<close> and its \<^verbatim>\<open>textContent\<close>.\<close>

record dom_anchor =
  anchorHref :: string
  anchorText :: "string option"

text \<open>
  A \<^verbatim>\<open>form\<close> element: its attributes, the number of \<^verbatim>\<open>input, textarea, select\<close> below
  it, and whether the submit selector of the source matches below it.
\<close>

record dom_form =
  attrAction :: "string option"
  attrMethod :: "string option"
  formControls :: nat
  submitMatches :: bool

text \<open>An \<^verbatim>\<open>input\<close>, \<^verbatim>\<open>textarea\<close> or \<^verbatim>\<open>select\<close>; \<open>inputTag\<close> is the lower-case tag name.\<close>

record dom_input =
  inputTag :: string
  inputId :: "string option"
  inputAriaLabel :: "string option"
  inputType :: "string option"

text \<open>
  Any element: lower-case tag name, \<^verbatim>\<open>parseInt\<close> of the computed font size (\<open>None\<close> is
  NaN), \<^verbatim>\<open>textContent\<close>, and the width and height of its bounding rectangle, of which the
  source only asks whether they are zero.
\<close>

record dom_element =
  elemTag :: string
  elemFontSize :: "int option"
  elemText :: "string option"
  rectWidth :: nat
  rectHeight :: nat

record nav_timing =
  domContentLoadedEventStart :: int
  domContentLoadedEventEnd :: int
  loadEventStart :: int
  loadEventEnd :: int

text \<open>
  What \<^verbatim>\<open>page.evaluate\<close> can read: \<^verbatim>\<open>window.location.origin\<close> and \<^verbatim>\<open>href\<close>, the elements
  the selectors of the source match, \<^verbatim>\<open>document.documentElement.scrollWidth\<close>,
  \<^verbatim>\<open>window.innerWidth\<close> and the performance entries. \<open>d_querySelector sel\<close> answers
  \<^verbatim>\<open>document.querySelector(sel)\<close> for the label selectors the form probe builds: it throws
  (a selector the browser cannot parse) or tells whether an element matches; \<open>d_paints\<close> are the paint entries (name, start time).
\<close>

record dom =
  d_origin :: string
  d_href :: string
  d_anchors :: "dom_anchor list"
  d_images :: "dom_image list"
  d_forms :: "dom_form list"
  d_inputs :: "dom_input list"
  d_querySelector :: "string \<Rightarrow> string + bool"
  d_elements :: "dom_element list"
  d_scrollWidth :: nat
  d_innerWidth :: nat
  d_navigationEntry :: "nav_timing option"
  d_paints :: "(string \<times> int) list"

record response =
  status :: nat
  responseUrl :: string

subsection \<open>The browser driver\<close>

text \<open>
  What the browser shows at a moment: the number of driver calls made so far, the current
  location and the viewport. Every answer of the world may depend on it, so a page may
  change between two calls.
\<close>

type_synonym view = "nat \<times> string \<times> (nat \<times> nat)"

text \<open>
  The answers of the driver. A \<open>string option\<close> answer is \<open>Some e\<close> when the call throws
  \<open>e\<close>; a sum answer is \<open>Inl e\<close> when it throws. \<open>w_dom\<close> answers \<^verbatim>\<open>page.evaluate\<close>: the
  call throws, or the function given to it runs on the DOM. \<open>w_pageErrors\<close> are the
  \<^verbatim>\<open>pageerror\<close> events delivered during a wait. \<open>w_query\<close> answers \<^verbatim>\<open>page.$\<close> with an
  element handle or null, \<open>w_textContent\<close> answers the call of \<^verbatim>\<open>textContent\<close> on a handle
  (it throws where the handle has no such method), \<open>w_metrics\<close> answers \<^verbatim>\<open>page.metrics\<close> with \<^verbatim>\<open>JSHeapUsedSize\<close>.
\<close>

record world =
  w_launch :: "string option"
  w_newPage :: "string option"
  w_setViewport :: "view \<Rightarrow> nat \<times> nat \<Rightarrow> string option"
  w_goto :: "view \<Rightarrow> string \<Rightarrow> string + response option"
  w_reload :: "view \<Rightarrow> string option"
  w_title :: "view \<Rightarrow> string + string"
  w_dom :: "view \<Rightarrow> string + dom"
  w_pageErrors :: "view \<Rightarrow> string list"
  w_waitForTimeout :: "view \<Rightarrow> nat \<Rightarrow> string option"
  w_waitForSelector :: "view \<Rightarrow> string option \<Rightarrow> nat \<Rightarrow> string option"
  w_click :: "view \<Rightarrow> string option \<Rightarrow> string option"
  w_type :: "view \<Rightarrow> string option \<Rightarrow> string option \<Rightarrow> string option"
  w_query :: "view \<Rightarrow> string option \<Rightarrow> string + nat option"
  w_textContent :: "view \<Rightarrow> nat \<Rightarrow> string + string option"
  w_metrics :: "view \<Rightarrow> string + nat"
  w_close :: "string option"

text \<open>
  The state one invocation threads: the browser (\<open>closes\<close> counts the calls of
  \<^verbatim>\<open>browser.close\<close>) and the two arrays the probes push to.
\<close>

record state =
  ticks :: nat
  location :: string
  pageViewport :: "nat \<times> nat"
  closes :: nat
  qaResults :: "test_result list"
  issues :: "issue_record list"

definition view :: "state \<Rightarrow> view" where
  "view s = (ticks s, location s, pageViewport s)"

definition tick :: "state \<Rightarrow> state" where
  "tick s = s\<lparr>ticks := Suc (ticks s)\<rparr>"

text \<open>A driver call that returns nothing: it throws or it does not.\<close>

definition call :: "string option \<Rightarrow> state \<Rightarrow> (string + unit) \<times> state" where
  "call answer s = (case answer of Some e \<Rightarrow> (Inl e, tick s) | None \<Rightarrow> (Inr (), tick s))"

text \<open>A driver call that returns a value.\<close>

definition ask :: "string + 'a \<Rightarrow> state \<Rightarrow> (string + 'a) \<times> state" where
  "ask answer s = (answer, tick s)"

text \<open>
  \<^verbatim>\<open>page.goto\<close>. A navigation that returns leaves the browser at the URL of its response
  (at the requested URL when the response is null); one that throws leaves the location
  as it was.
\<close>

definition page_goto :: "world \<Rightarrow> string \<Rightarrow> state \<Rightarrow> (string + response option) \<times> state" where
  "page_goto w u s =
     (case w_goto w (view s) u of
        Inl e \<Rightarrow> (Inl e, tick s)
      | Inr r \<Rightarrow> (Inr r, (tick s)\<lparr>location := (case r of None \<Rightarrow> u | Some rsp \<Rightarrow> responseUrl rsp)\<rparr>))"

definition page_setViewport :: "world \<Rightarrow> nat \<times> nat \<Rightarrow> state \<Rightarrow> (string + unit) \<times> state" where
  "page_setViewport w vp s =
     (case w_setViewport w (view s) vp of
        Some e \<Rightarrow> (Inl e, tick s)
      | None \<Rightarrow> (Inr (), (tick s)\<lparr>pageViewport := vp\<rparr>))"

text \<open>\<^verbatim>\<open>page.evaluate(f)\<close>: the call throws, or \<open>f\<close> runs on the DOM of the moment.\<close>

definition page_evaluate :: "world \<Rightarrow> (dom \<Rightarrow> string + 'a) \<Rightarrow> state \<Rightarrow> (string + 'a) \<times> state" where
  "page_evaluate w f s =
     (case w_dom w (view s) of
        Inl e \<Rightarrow> (Inl e, tick s)
      | Inr d \<Rightarrow> (f d, tick s))"

definition pushResult :: "test_result \<Rightarrow> state \<Rightarrow> state" where
  "pushResult r s = s\<lparr>qaResults := qaResults s @ [r]\<rparr>"

definition pushIssue :: "issue_record \<Rightarrow> state \<Rightarrow> state" where
  "pushIssue i s = s\<lparr>issues := issues s @ [i]\<rparr>"

definition pushIssues :: "issue_record list \<Rightarrow> state \<Rightarrow> state" where
  "pushIssues is s = s\<lparr>issues := issues s @ is\<rparr>"

text \<open>A result object built with \<^verbatim>\<open>testName\<close>, \<^verbatim>\<open>passed\<close> and \<^verbatim>\<open>details\<close>.\<close>

definition resultOk :: "string \<Rightarrow> bool \<Rightarrow> result_details \<Rightarrow> test_result" where
  "resultOk n p d = \<lparr>testName = n, passed = p, error = None, steps = None, details = d\<rparr>"

text \<open>The result object of a catch block: \<^verbatim>\<open>testName\<close>, \<^verbatim>\<open>passed: false\<close>, \<^verbatim>\<open>error\<close>.\<close>

definition resultError :: "string \<Rightarrow> string \<Rightarrow> test_result" where
  "resultError n e = \<lparr>testName = n, passed = False, error = Some e, steps = None, details = NoDetails\<rparr>"

subsection \<open>runUserFlow\<close>

text \<open>
  The \<^verbatim>\<open>switch\<close> on the action, inside the inner \<^verbatim>\<open>try\<close>. \<open>Inl e\<close> is an exception of a
  driver call; \<open>Inr r\<close> is the step result as the branch leaves it. \<^verbatim>\<open>screenshot\<close> has no
  branch, so its step result stays as initialised. \<^verbatim>\<open>step.value || ''\<close> is the empty
  string for a missing or empty value; \<^verbatim>\<open>includes(undefined)\<close> looks for the text
  \<^verbatim>\<open>undefined\<close>.
\<close>

definition stepSwitch :: "world \<Rightarrow> step \<Rightarrow> step_result \<Rightarrow> state \<Rightarrow> (string + step_result) \<times> state" where
  "stepSwitch w st r s =
     (case action st of
        goto \<Rightarrow>
          (case page_goto w (case value st of None \<Rightarrow> [] | Some v \<Rightarrow> v) s of
             (Inl e, s1) \<Rightarrow> (Inl e, s1)
           | (Inr _, s1) \<Rightarrow> (Inr (r\<lparr>stepPassed := True\<rparr>), s1))
      | click \<Rightarrow>
          (case call (w_waitForSelector w (view s) (selector st) (timeout st)) s of
             (Inl e, s1) \<Rightarrow> (Inl e, s1)
           | (Inr _, s1) \<Rightarrow>
               (case call (w_click w (view s1) (selector st)) s1 of
                  (Inl e, s2) \<Rightarrow> (Inl e, s2)
                | (Inr _, s2) \<Rightarrow> (Inr (r\<lparr>stepPassed := True\<rparr>), s2)))
      | type \<Rightarrow>
          (case call (w_waitForSelector w (view s) (selector st) (timeout st)) s of
             (Inl e, s1) \<Rightarrow> (Inl e, s1)
           | (Inr _, s1) \<Rightarrow>
               (case call (w_type w (view s1) (selector st) (value st)) s1 of
                  (Inl e, s2) \<Rightarrow> (Inl e, s2)
                | (Inr _, s2) \<Rightarrow> (Inr (r\<lparr>stepPassed := True\<rparr>), s2)))
      | wait \<Rightarrow>
          (case call (w_waitForTimeout w (view s) (timeout st)) s of
             (Inl e, s1) \<Rightarrow> (Inl e, s1)
           | (Inr _, s1) \<Rightarrow> (Inr (r\<lparr>stepPassed := True\<rparr>), s1))
      | screenshot \<Rightarrow> (Inr r, s)
      | verify \<Rightarrow>
          (case ask (w_query w (view s) (selector st)) s of
             (Inl e, s1) \<Rightarrow> (Inl e, s1)
           | (Inr element, s1) \<Rightarrow>
               (case (case element of
                        None \<Rightarrow> (Inr None, s1)
                      | Some h \<Rightarrow> ask (w_textContent w (view s1) h) s1) of
                  (Inl e, s2) \<Rightarrow> (Inl e, s2)
                | (Inr textContent, s2) \<Rightarrow>
                    (Inr (r\<lparr>stepPassed :=
                               (case textContent of
                                  None \<Rightarrow> False
                                | Some t \<Rightarrow>
                                    includesStr t (case expected st of None \<Rightarrow> ''undefined'' | Some x \<Rightarrow> x)),
                             verified := Some (textContent, expected st)\<rparr>), s2))))"

definition pushStep :: "step_result \<Rightarrow> test_result \<Rightarrow> test_result" where
  "pushStep r fr = fr\<lparr>steps := Some ((case steps fr of None \<Rightarrow> [] | Some rs \<Rightarrow> rs) @ [r])\<rparr>"

text \<open>
  One iteration of the loop over \<^verbatim>\<open>flow.steps\<close>, for the step at index \<open>i\<close>: the step
  result is initialised, the \<^verbatim>\<open>switch\<close> runs inside \<^verbatim>\<open>try\<close>, the \<^verbatim>\<open>catch\<close> marks the step
  and the flow as failed, and the step result is pushed in either case.
\<close>

definition runStep :: "world \<Rightarrow> step \<Rightarrow> nat \<Rightarrow> test_result \<Rightarrow> state \<Rightarrow> test_result \<times> state" where
  "runStep w st i fr s =
     (let stepResult = \<lparr>stepNumber = i + 1, stepAction = action st, stepSelector = selector st,
                         stepValue = value st, stepPassed = False, stepError = None,
                         verified = None\<rparr>
      in case stepSwitch w st stepResult s of
           (Inr r, s1) \<Rightarrow> (pushStep r fr, s1)
         | (Inl e, s1) \<Rightarrow>
             (pushStep (stepResult\<lparr>stepPassed := False, stepError := Some e\<rparr>) (fr\<lparr>passed := False\<rparr>), s1))"

fun runSteps :: "world \<Rightarrow> step list \<Rightarrow> nat \<Rightarrow> test_result \<Rightarrow> state \<Rightarrow> test_result \<times> state" where
  "runSteps w [] i fr s = (fr, s)"
| "runSteps w (st # rest) i fr s =
     (case runStep w st i fr s of (fr1, s1) \<Rightarrow> runSteps w rest (Suc i) fr1 s1)"

text \<open>
  \<^verbatim>\<open>runUserFlow(page, flow, issues)\<close>. Nothing in the loop outside the inner \<^verbatim>\<open>try\<close> can
  throw, so the outer \<^verbatim>\<open>catch\<close> has no branch here. The flow result is returned; the
  caller pushes it.
\<close>

definition runUserFlow :: "world \<Rightarrow> flow \<Rightarrow> state \<Rightarrow> test_result \<times> state" where
  "runUserFlow w fl s =
     (let flowResult = \<lparr>testName = ''User Flow: '' @ name fl, passed = True, error = None,
                         steps = Some [], details = NoDetails\<rparr>
      in case runSteps w (flowSteps fl) 0 flowResult s of
           (fr, s1) \<Rightarrow>
             (fr, if \<not> passed fr
                  then pushIssue \<lparr>severity = major, category = UserFlow,
                                  issue = ''User flow '' @ [CHR 0x22] @ name fl @ [CHR 0x22] @ '' failed'',
                                  recommendation = ''Review and fix the failing user flow steps'',
                                  issueDetails = FlowResult fr\<rparr> s1
                  else s1))"

subsection \<open>testConnectivity\<close>

text \<open>
  \<^verbatim>\<open>response?.status()\<close> is undefined for a null response, so \<open>None\<close> here; the test passes
  exactly when it is 200.
\<close>

definition testConnectivity :: "world \<Rightarrow> string \<Rightarrow> state \<Rightarrow> test_result \<times> state" where
  "testConnectivity w url s =
     (case page_goto w url s of
        (Inr response, s1) \<Rightarrow>
          (\<lparr>testName = ''Connectivity Test'',
            passed = (map_option status response = Some 200),
            error = (if map_option status response \<noteq> Some 200
                     then Some (''HTTP '' @ (case response of
                                               None \<Rightarrow> ''undefined''
                                             | Some r \<Rightarrow> showNat (status r)))
                     else None),
            steps = None,
            details = ConnectivityDetails (map_option status response)
                        (map_option responseUrl response)\<rparr>, s1)
      | (Inl e, s1) \<Rightarrow> (resultError ''Connectivity Test'' e, s1))"

subsection \<open>runBasicTests\<close>

definition titleCheck :: "world \<Rightarrow> state \<Rightarrow> state" where
  "titleCheck w s =
     (case ask (w_title w (view s)) s of
        (Inr title, s1) \<Rightarrow>
          (let s2 = pushResult (resultOk ''Page Title Check'' (trim title \<noteq> []) (TitleDetails title)) s1
           in if trim title = []
              then pushIssue \<lparr>severity = minor, category = SEO,
                              issue = ''Page title is missing or empty'',
                              recommendation = ''Add a descriptive page title for better SEO and user experience'',
                              issueDetails = NoIssueDetails\<rparr> s2
              else s2)
      | (Inl e, s1) \<Rightarrow> pushResult (resultError ''Page Title Check'' e) s1)"

definition brokenImagesCheck :: "world \<Rightarrow> state \<Rightarrow> state" where
  "brokenImagesCheck w s =
     (case page_evaluate w
             (\<lambda>d. Inr (length (filter (\<lambda>img. \<not> imgComplete img \<or> imgNaturalHeight img = 0) (d_images d)))) s of
        (Inr brokenImages, s1) \<Rightarrow>
          (let s2 = pushResult (resultOk ''Broken Images Check'' (brokenImages = 0)
                                  (BrokenImagesDetails brokenImages)) s1
           in if brokenImages > 0
              then pushIssue \<lparr>severity = major, category = Content,
                              issue = showNat brokenImages @ '' broken image(s) detected'',
                              recommendation = ''Fix broken image sources and ensure all images load correctly'',
                              issueDetails = NoIssueDetails\<rparr> s2
              else s2)
      | (Inl e, s1) \<Rightarrow> pushResult (resultError ''Broken Images Check'' e) s1)"

text \<open>
  The listener collects the \<^verbatim>\<open>pageerror\<close> events of the two-second wait. The wait is
  outside any \<^verbatim>\<open>try\<close>: when it throws, \<^verbatim>\<open>runBasicTests\<close> throws.
\<close>

definition jsErrorsCheck :: "world \<Rightarrow> state \<Rightarrow> (string + unit) \<times> state" where
  "jsErrorsCheck w s =
     (let jsErrors = w_pageErrors w (view s)
      in case call (w_waitForTimeout w (view s) 2000) s of
           (Inl e, s1) \<Rightarrow> (Inl e, s1)
         | (Inr _, s1) \<Rightarrow>
             (let s2 = pushResult (resultOk ''JavaScript Errors Check'' (length jsErrors = 0)
                                     (JsErrorsDetails (length jsErrors) jsErrors)) s1
              in (Inr (),
                  if length jsErrors > 0
                  then pushIssue \<lparr>severity = critical, category = JavaScript,
                                  issue = showNat (length jsErrors) @ '' JavaScript error(s) detected'',
                                  recommendation = ''Fix JavaScript errors to ensure proper application functionality'',
                                  issueDetails = JsErrorList jsErrors\<rparr> s2
                  else s2)))"

definition runBasicTests :: "world \<Rightarrow> string \<Rightarrow> state \<Rightarrow> (string + unit) \<times> state" where
  "runBasicTests w url s = jsErrorsCheck w (brokenImagesCheck w (titleCheck w s))"

subsection \<open>runNavigationTests\<close>

record link =
  linkHref :: string
  linkText :: string
  linkInternal :: bool

text \<open>The function evaluated in the page: the internal links that do not point at the page itself.\<close>

definition findLinks :: "dom \<Rightarrow> link list" where
  "findLinks d =
     filter (\<lambda>l. linkInternal l \<and> linkHref l \<noteq> d_href d)
       (map (\<lambda>a. \<lparr>linkHref = anchorHref a,
                   linkText = (case anchorText a of None \<Rightarrow> [] | Some t \<Rightarrow> trim t),
                   linkInternal = includesStr (anchorHref a) (d_origin d)\<rparr>)
            (d_anchors d))"

text \<open>
  The loop over \<^verbatim>\<open>linksToTest\<close>, with the counters \<^verbatim>\<open>workingLinks\<close>, \<^verbatim>\<open>brokenLinks\<close> and
  the array \<^verbatim>\<open>brokenLinkDetails\<close> as accumulators.
\<close>

fun testLinks :: "world \<Rightarrow> link list \<Rightarrow> nat \<times> nat \<times> broken_link list \<Rightarrow> state
                    \<Rightarrow> (nat \<times> nat \<times> broken_link list) \<times> state" where
  "testLinks w [] acc s = (acc, s)"
| "testLinks w (l # ls) (workingLinks, brokenLinks, brokenLinkDetails) s =
     (case page_goto w (linkHref l) s of
        (Inr response, s1) \<Rightarrow>
          (if map_option status response = Some 200
           then testLinks w ls (workingLinks + 1, brokenLinks, brokenLinkDetails) s1
           else testLinks w ls (workingLinks, brokenLinks + 1,
                  brokenLinkDetails @ [BrokenStatus (linkHref l) (map_option status response)]) s1)
      | (Inl e, s1) \<Rightarrow>
          testLinks w ls (workingLinks, brokenLinks + 1,
            brokenLinkDetails @ [BrokenError (linkHref l) e]) s1)"

definition runNavigationTests :: "world \<Rightarrow> string \<Rightarrow> state \<Rightarrow> state" where
  "runNavigationTests w url s =
     (case page_evaluate w (\<lambda>d. Inr (findLinks d)) s of
        (Inl e, s1) \<Rightarrow> pushResult (resultError ''Navigation Links Test'' e) s1
      | (Inr links, s1) \<Rightarrow>
          (let linksToTest = take 10 links
           in case testLinks w linksToTest (0, 0, []) s1 of
                ((workingLinks, brokenLinks, brokenLinkDetails), s2) \<Rightarrow>
                  (let s3 = pushResult (resultOk ''Navigation Links Test'' (brokenLinks = 0)
                                          (NavigationDetails (length links) (length linksToTest)
                                             workingLinks brokenLinks brokenLinkDetails)) s2;
                       s4 = (if brokenLinks > 0
                             then pushIssue \<lparr>severity = major, category = Navigation,
                                    issue = showNat brokenLinks @ '' broken internal link(s) found'',
                                    recommendation = ''Fix broken navigation links to improve user experience'',
                                    issueDetails = BrokenLinkList brokenLinkDetails\<rparr> s3
                             else s3)
                   in case page_goto w url s4 of
                        (Inr _, s5) \<Rightarrow> s5
                      | (Inl e, s5) \<Rightarrow> pushResult (resultError ''Navigation Links Test'' e) s5)))"

subsection \<open>runFormTests\<close>

text \<open>The first function evaluated in the page: one entry per \<^verbatim>\<open>form\<close>, with its index.\<close>

definition readForms :: "dom \<Rightarrow> form_info list" where
  "readForms d =
     map (\<lambda>(index, f).
            \<lparr>formIndex = index,
             formAction = (case attrAction f of None \<Rightarrow> [] | Some a \<Rightarrow> a),
             formMethod = (case attrMethod f of None \<Rightarrow> ''GET'' | Some m \<Rightarrow> if m = [] then ''GET'' else m),
             inputCount = formControls f,
             hasSubmitButton = submitMatches f\<rparr>)
         (enumerate 0 (d_forms d))"

text \<open>
  The selector the source builds for the label of an input, the \<^verbatim>\<open>id\<close> interpolated as
  it is: \<^verbatim>\<open>label[for="id"]\<close>.
\<close>

definition labelSelector :: "string \<Rightarrow> string" where
  "labelSelector i = ''label[for='' @ [CHR 0x22] @ i @ [CHR 0x22] @ '']''"

text \<open>
  \<^verbatim>\<open>id ? document.querySelector(...) : null\<close>, as the truthiness of the label: the lookup
  is made only for a non-empty \<^verbatim>\<open>id\<close>, and it throws when the browser cannot parse the
  selector, as for an \<^verbatim>\<open>id\<close> with a double quote in it.
\<close>

definition findLabel :: "dom \<Rightarrow> dom_input \<Rightarrow> string + bool" where
  "findLabel d input =
     (case inputId input of
        None \<Rightarrow> Inr False
      | Some i \<Rightarrow> if i = [] then Inr False else d_querySelector d (labelSelector i))"

text \<open>
  \<^verbatim>\<open>!label && !ariaLabel\<close>, after the lookup of the label; an empty \<^verbatim>\<open>aria-label\<close> counts
  as none.
\<close>

definition unlabelled :: "dom \<Rightarrow> dom_input \<Rightarrow> string + bool" where
  "unlabelled d input =
     (case findLabel d input of
        Inl e \<Rightarrow> Inl e
      | Inr label \<Rightarrow>
          Inr (\<not> label \<and> \<not> (case inputAriaLabel input of None \<Rightarrow> False | Some a \<Rightarrow> a \<noteq> [])))"

definition labelIssueOf :: "nat \<Rightarrow> dom_input \<Rightarrow> label_issue" where
  "labelIssueOf index input =
     \<lparr>labelElement = inputTag input @ ''['' @ showNat index @ '']'',
      labelIssue = ''Missing label'',
      labelType = (case inputType input of
                     None \<Rightarrow> inputTag input
                   | Some t \<Rightarrow> if t = [] then inputTag input else t)\<rparr>"

text \<open>
  The \<^verbatim>\<open>forEach\<close> over the inputs, with the array \<^verbatim>\<open>issues\<close> of the page function as
  accumulator. A lookup that throws ends the whole function.
\<close>

fun forEachInput :: "dom \<Rightarrow> (nat \<times> dom_input) list \<Rightarrow> label_issue list \<Rightarrow> string + label_issue list" where
  "forEachInput d [] acc = Inr acc"
| "forEachInput d ((index, input) # rest) acc =
     (case unlabelled d input of
        Inl e \<Rightarrow> Inl e
      | Inr missing \<Rightarrow>
          forEachInput d rest (if missing then acc @ [labelIssueOf index input] else acc))"

text \<open>The second function evaluated in the page: one entry per input without a label.\<close>

definition findUnlabelled :: "dom \<Rightarrow> string + label_issue list" where
  "findUnlabelled d = forEachInput d (enumerate 0 (d_inputs d)) []"

definition runFormTests :: "world \<Rightarrow> string \<Rightarrow> state \<Rightarrow> state" where
  "runFormTests w url s =
     (case page_evaluate w (\<lambda>d. Inr (readForms d)) s of
        (Inl e, s1) \<Rightarrow> pushResult (resultError ''Form Structure Check'' e) s1
      | (Inr forms, s1) \<Rightarrow>
          (let s2 = pushResult (resultOk ''Form Structure Check'' (list_all hasSubmitButton forms)
                                  (FormDetails (length forms) forms)) s1;
               formsWithoutSubmit = filter (\<lambda>f. \<not> hasSubmitButton f) forms;
               s3 = (if length formsWithoutSubmit > 0
                     then pushIssue \<lparr>severity = major, category = Forms,
                            issue = showNat (length formsWithoutSubmit) @ '' form(s) missing submit button'',
                            recommendation = ''Add submit buttons to all forms for proper user interaction'',
                            issueDetails = FormList formsWithoutSubmit\<rparr> s2
                     else s2)
           in case page_evaluate w findUnlabelled s3 of
                (Inl e, s4) \<Rightarrow> pushResult (resultError ''Form Structure Check'' e) s4
              | (Inr accessibilityIssues, s4) \<Rightarrow>
                  (if length accessibilityIssues > 0
                   then pushIssue \<lparr>severity = major, category = Accessibility,
                          issue = showNat (length accessibilityIssues) @ '' form input(s) missing labels'',
                          recommendation = ''Add labels to all form inputs for better accessibility'',
                          issueDetails = LabelIssueList accessibilityIssues\<rparr> s4
                   else s4)))"

subsection \<open>runResponsiveTests\<close>

record viewport_spec =
  vpName :: string
  vpWidth :: nat
  vpHeight :: nat

definition viewports :: "viewport_spec list" where
  "viewports =
     [\<lparr>vpName = ''Mobile'', vpWidth = 375, vpHeight = 667\<rparr>,
      \<lparr>vpName = ''Tablet'', vpWidth = 768, vpHeight = 1024\<rparr>,
      \<lparr>vpName = ''Desktop'', vpWidth = 1280, vpHeight = 720\<rparr>]"

text \<open>The entry the \<^verbatim>\<open>catch\<close> of one viewport pushes.\<close>

definition viewportFailed :: "viewport_spec \<Rightarrow> string \<Rightarrow> viewport_test" where
  "viewportFailed vp e =
     \<lparr>vtViewport = vpName vp, vtDimensions = None, vtHasHorizontalScroll = None,
      vtHasOverlappingElements = None, vtPassed = False, vtError = Some e\<rparr>"

text \<open>One iteration of the loop over the viewports.\<close>

definition testViewport :: "world \<Rightarrow> viewport_spec \<Rightarrow> viewport_test list \<Rightarrow> state
                              \<Rightarrow> viewport_test list \<times> state" where
  "testViewport w vp responsiveResults s =
     (case page_setViewport w (vpWidth vp, vpHeight vp) s of
        (Inl e, s1) \<Rightarrow> (responsiveResults @ [viewportFailed vp e], s1)
      | (Inr _, s1) \<Rightarrow>
     (case call (w_reload w (view s1)) s1 of
        (Inl e, s2) \<Rightarrow> (responsiveResults @ [viewportFailed vp e], s2)
      | (Inr _, s2) \<Rightarrow>
     (case page_evaluate w (\<lambda>d. Inr (d_scrollWidth d > d_innerWidth d)) s2 of
        (Inl e, s3) \<Rightarrow> (responsiveResults @ [viewportFailed vp e], s3)
      | (Inr hasHorizontalScroll, s3) \<Rightarrow>
     (case page_evaluate w
             (\<lambda>d. Inr (list_ex (\<lambda>el. rectWidth el = 0 \<or> rectHeight el = 0) (d_elements d))) s3 of
        (Inl e, s4) \<Rightarrow> (responsiveResults @ [viewportFailed vp e], s4)
      | (Inr hasOverlappingElements, s4) \<Rightarrow>
          (responsiveResults @
             [\<lparr>vtViewport = vpName vp,
               vtDimensions = Some (showNat (vpWidth vp) @ ''x'' @ showNat (vpHeight vp)),
               vtHasHorizontalScroll = Some hasHorizontalScroll,
               vtHasOverlappingElements = Some hasOverlappingElements,
               vtPassed = (\<not> hasHorizontalScroll \<and> \<not> hasOverlappingElements),
               vtError = None\<rparr>],
           if hasHorizontalScroll
           then pushIssue \<lparr>severity = major, category = ResponsiveDesign,
                  issue = ''Horizontal scroll detected on '' @ vpName vp @ '' ('' @ showNat (vpWidth vp) @ ''px)'',
                  recommendation = ''Ensure content fits within viewport width on all device sizes'',
                  issueDetails = NoIssueDetails\<rparr> s4
           else s4)))))"

fun testViewports :: "world \<Rightarrow> viewport_spec list \<Rightarrow> viewport_test list \<Rightarrow> state
                        \<Rightarrow> viewport_test list \<times> state" where
  "testViewports w [] responsiveResults s = (responsiveResults, s)"
| "testViewports w (vp # vps) responsiveResults s =
     (case testViewport w vp responsiveResults s of (rr, s1) \<Rightarrow> testViewports w vps rr s1)"

definition runResponsiveTests :: "world \<Rightarrow> string \<Rightarrow> state \<Rightarrow> state" where
  "runResponsiveTests w url s =
     (case testViewports w viewports [] s of
        (responsiveResults, s1) \<Rightarrow>
          pushResult (resultOk ''Responsive Design Test'' (list_all vtPassed responsiveResults)
                        (ResponsiveDetails responsiveResults)) s1)"

subsection \<open>assessUIQuality\<close>

text \<open>\<^verbatim>\<open>fontSize < 12 && el.textContent && el.textContent.trim().length > 0\<close>; NaN is not below 12.\<close>

definition smallText :: "dom_element \<Rightarrow> bool" where
  "smallText el =
     ((case elemFontSize el of None \<Rightarrow> False | Some f \<Rightarrow> f < 12)
      \<and> (case elemText el of None \<Rightarrow> False | Some t \<Rightarrow> trim t \<noteq> []))"

text \<open>\<^verbatim>\<open>!img.getAttribute('alt')\<close>: the attribute is absent or empty.\<close>

definition missingAlt :: "dom_image \<Rightarrow> bool" where
  "missingAlt img = (case imgAlt img of None \<Rightarrow> True | Some a \<Rightarrow> a = [])"

text \<open>The function evaluated in the page: the small texts first, then the images without alt text.\<close>

definition findUiProblems :: "dom \<Rightarrow> ui_problem list" where
  "findUiProblems d =
     map (\<lambda>(index, el).
            \<lparr>problemIssue = ''Text too small'',
             problemElement = elemTag el @ ''['' @ showNat index @ '']'',
             problemFontSize = Some ((case elemFontSize el of None \<Rightarrow> ''NaN'' | Some f \<Rightarrow> showInt f) @ ''px''),
             problemSrc = None,
             problemRecommendation = ''Ensure text is at least 12px for readability''\<rparr>)
         (filter (\<lambda>(index, el). smallText el) (enumerate 0 (d_elements d)))
     @ map (\<lambda>(index, img).
            \<lparr>problemIssue = ''Missing alt text'',
             problemElement = ''img['' @ showNat index @ '']'',
             problemFontSize = None,
             problemSrc = imgSrc img,
             problemRecommendation = ''Add descriptive alt text to all images''\<rparr>)
         (filter (\<lambda>(index, img). missingAlt img) (enumerate 0 (d_images d)))"

definition uiIssueRecord :: "ui_problem \<Rightarrow> issue_record" where
  "uiIssueRecord p =
     \<lparr>severity = minor, category = UIUX, issue = problemIssue p,
      recommendation = problemRecommendation p, issueDetails = UiProblem p\<rparr>"

text \<open>The evaluation is outside any \<^verbatim>\<open>try\<close>: when it throws, \<^verbatim>\<open>assessUIQuality\<close> throws.\<close>

definition assessUIQuality :: "world \<Rightarrow> state \<Rightarrow> (string + test_result) \<times> state" where
  "assessUIQuality w s =
     (case page_evaluate w (\<lambda>d. Inr (findUiProblems d)) s of
        (Inl e, s1) \<Rightarrow> (Inl e, s1)
      | (Inr uiIssues, s1) \<Rightarrow>
          (Inr (resultOk ''UI Quality Assessment'' (length uiIssues = 0)
                  (UiDetails (length uiIssues) uiIssues)),
           if length uiIssues > 0 then pushIssues (map uiIssueRecord uiIssues) s1 else s1))"

subsection \<open>assessPerformance\<close>

record performance_entries =
  domContentLoaded :: int
  loadComplete :: int
  firstPaint :: int
  firstContentfulPaint :: int

definition paintStart :: "string \<Rightarrow> (string \<times> int) list \<Rightarrow> int" where
  "paintStart n ps = (case find (\<lambda>(k, t). k = n) ps of None \<Rightarrow> 0 | Some (k, t) \<Rightarrow> t)"

text \<open>
  The function evaluated in the page. Without a navigation entry, reading its fields is a
  TypeError in the page, which \<^verbatim>\<open>page.evaluate\<close> rethrows. Times are in whole
  milliseconds.
\<close>

definition readPerformance :: "dom \<Rightarrow> string + performance_entries" where
  "readPerformance d =
     (case d_navigationEntry d of
        None \<Rightarrow> Inl ''TypeError: Cannot read properties of undefined''
      | Some n \<Rightarrow>
          Inr \<lparr>domContentLoaded = domContentLoadedEventEnd n - domContentLoadedEventStart n,
               loadComplete = loadEventEnd n - loadEventStart n,
               firstPaint = paintStart ''first-paint'' (d_paints d),
               firstContentfulPaint = paintStart ''first-contentful-paint'' (d_paints d)\<rparr>)"

text \<open>
  \<open>heap\<close> is \<^verbatim>\<open>metrics.JSHeapUsedSize\<close> in bytes; \<^verbatim>\<open>Math.round\<close> of its size in megabytes
  rounds half up.
\<close>

definition performanceIssuesOf :: "nat \<Rightarrow> performance_entries \<Rightarrow> issue_record list" where
  "performanceIssuesOf heap pe =
     (if loadComplete pe > 3000
      then [\<lparr>severity = major, category = Performance,
             issue = ''Slow page load time: '' @ showInt (loadComplete pe) @ ''ms'',
             recommendation = ''Optimize images, minify CSS/JS, and reduce server response time'',
             issueDetails = NoIssueDetails\<rparr>]
      else [])
     @ (if heap > 50 * 1024 * 1024
        then [\<lparr>severity = minor, category = Performance,
               issue = ''High memory usage: '' @ showNat ((heap + 524288) div 1048576) @ ''MB'',
               recommendation = ''Review JavaScript memory usage and look for memory leaks'',
               issueDetails = NoIssueDetails\<rparr>]
        else [])"

definition assessPerformance :: "world \<Rightarrow> state \<Rightarrow> (string + test_result) \<times> state" where
  "assessPerformance w s =
     (case ask (w_metrics w (view s)) s of
        (Inl e, s1) \<Rightarrow> (Inl e, s1)
      | (Inr heap, s1) \<Rightarrow>
     (case page_evaluate w readPerformance s1 of
        (Inl e, s2) \<Rightarrow> (Inl e, s2)
      | (Inr performanceEntries, s2) \<Rightarrow>
          (let performanceIssues = performanceIssuesOf heap performanceEntries
           in (Inr (resultOk ''Performance Assessment'' (length performanceIssues = 0)
                      (PerformanceDetails (length performanceIssues))),
               pushIssues performanceIssues s2))))"

subsection \<open>Summary and recommendations\<close>

text \<open>
  The \<^verbatim>\<open>summary\<close> object; \<open>passedTests\<close>, \<open>failedTests\<close> and \<open>issueCount\<close> are its fields
  \<^verbatim>\<open>passed\<close>, \<^verbatim>\<open>failed\<close> and \<^verbatim>\<open>issues\<close>.
\<close>

record summary =
  totalTests :: nat
  passedTests :: nat
  failedTests :: nat
  issueCount :: nat
  criticalIssues :: nat
  majorIssues :: nat
  minorIssues :: nat

definition summarize :: "test_result list \<Rightarrow> issue_record list \<Rightarrow> summary" where
  "summarize results is =
     \<lparr>totalTests = length results,
      passedTests = length (filter (\<lambda>r. passed r) results),
      failedTests = length (filter (\<lambda>r. \<not> passed r) results),
      issueCount = length is,
      criticalIssues = length (filter (\<lambda>i. severity i = critical) is),
      majorIssues = length (filter (\<lambda>i. severity i = major) is),
      minorIssues = length (filter (\<lambda>i. severity i = minor) is)\<rparr>"

text \<open>
  \<^verbatim>\<open>cats[c] = (cats[c] || 0) + 1\<close> on an object whose keys are category literals: the
  entries keep the order in which the keys were first set, which is the order
  \<^verbatim>\<open>Object.entries\<close> lists them in.
\<close>

fun countCategory :: "(category \<times> nat) list \<Rightarrow> category \<Rightarrow> (category \<times> nat) list" where
  "countCategory [] c = [(c, 1)]"
| "countCategory ((k, n) # cats) c =
     (if k = c then (k, n + 1) # cats else (k, n) # countCategory cats c)"

definition categoryCounts :: "issue_record list \<Rightarrow> (category \<times> nat) list" where
  "categoryCounts is = foldl (\<lambda>cats i. countCategory cats (category i)) [] is"

text \<open>The lines of the source; each starts with the UTF-8 bytes of its emoji.\<close>

definition criticalBanner :: string where
  "criticalBanner = [CHR 0xF0, CHR 0x9F, CHR 0x9A, CHR 0xA8]
     @ '' CRITICAL: Address critical issues immediately - these prevent basic functionality''"

definition majorBanner :: string where
  "majorBanner = [CHR 0xE2, CHR 0x9A, CHR 0xA0, CHR 0xEF, CHR 0xB8, CHR 0x8F]
     @ '' MAJOR: Fix major issues that significantly impact user experience''"

definition minorBanner :: string where
  "minorBanner = [CHR 0xF0, CHR 0x9F, CHR 0x93, CHR 0x9D]
     @ '' MINOR: Consider addressing minor issues for better overall quality''"

definition focusLine :: "category \<times> nat \<Rightarrow> string" where
  "focusLine e = [CHR 0xF0, CHR 0x9F, CHR 0x94, CHR 0x8D]
     @ '' Focus on '' @ categoryName (fst e) @ '': '' @ showNat (snd e) @ '' issue(s) found''"

definition excellentLine :: string where
  "excellentLine = [CHR 0xE2, CHR 0x9C, CHR 0x85]
     @ '' Excellent! No major issues detected. Application appears to be well-built and functional.''"

definition generateQARecommendations :: "issue_record list \<Rightarrow> summary \<Rightarrow> string list" where
  "generateQARecommendations is summary =
     (if criticalIssues summary > 0 then [criticalBanner] else [])
     @ (if majorIssues summary > 0 then [majorBanner] else [])
     @ (if minorIssues summary > 0 then [minorBanner] else [])
     @ map focusLine (categoryCounts is)
     @ (if issueCount summary = 0 then [excellentLine] else [])"

subsection \<open>functionalQATool\<close>

datatype suite = basic | auth | forms | navigation | responsive | comprehensive

text \<open>The arguments after validation by the zod schema, defaults filled in.\<close>

record args =
  url :: string
  testSuite :: suite
  userFlows :: "flow list"
  viewport :: "nat \<times> nat"

text \<open>
  What the tool returns, without the time stamp: the report of the \<^verbatim>\<open>try\<close> block
  (summary, results, issues, screenshots, recommendations), or the error envelope of the
  \<^verbatim>\<open>catch\<close> block (message, \<^verbatim>\<open>completedTests\<close>, \<^verbatim>\<open>issuesFound\<close>).
\<close>

datatype tool_output =
  Report summary "test_result list" "issue_record list" "string list" "string list"
| Failure string nat nat

text \<open>
  The connectivity test and the issue pushed when it fails. The issue text is the
  \<^verbatim>\<open>error\<close> of the result, which a failed connectivity result always has.
\<close>

definition connectivityCheck :: "world \<Rightarrow> string \<Rightarrow> state \<Rightarrow> state" where
  "connectivityCheck w u s =
     (case testConnectivity w u s of
        (connectivityResult, s1) \<Rightarrow>
          (let s2 = pushResult connectivityResult s1
           in if \<not> passed connectivityResult
              then pushIssue \<lparr>severity = critical, category = Connectivity,
                     issue = (case error connectivityResult of None \<Rightarrow> ''null'' | Some e \<Rightarrow> e),
                     recommendation = ''Ensure the development server is running and accessible'',
                     issueDetails = NoIssueDetails\<rparr> s2
              else s2))"

text \<open>The \<^verbatim>\<open>switch\<close> on the test suite.\<close>

definition runSelectedSuite :: "world \<Rightarrow> args \<Rightarrow> state \<Rightarrow> (string + unit) \<times> state" where
  "runSelectedSuite w a s =
     (case testSuite a of
        basic \<Rightarrow> runBasicTests w (url a) s
      | auth \<Rightarrow>
          (Inr (), pushResult (resultOk ''Authentication Tests'' True
                     (AuthNote ''Auth tests not implemented - would test login/logout flows'')) s)
      | forms \<Rightarrow> (Inr (), runFormTests w (url a) s)
      | navigation \<Rightarrow> (Inr (), runNavigationTests w (url a) s)
      | responsive \<Rightarrow> (Inr (), runResponsiveTests w (url a) s)
      | comprehensive \<Rightarrow>
          (case runBasicTests w (url a) s of
             (Inl e, s1) \<Rightarrow> (Inl e, s1)
           | (Inr _, s1) \<Rightarrow>
               (Inr (), runResponsiveTests w (url a)
                          (runFormTests w (url a) (runNavigationTests w (url a) s1)))))"

text \<open>The loop over \<^verbatim>\<open>userFlows\<close>.\<close>

fun runCustomFlows :: "world \<Rightarrow> flow list \<Rightarrow> state \<Rightarrow> state" where
  "runCustomFlows w [] s = s"
| "runCustomFlows w (fl # fls) s =
     (case runUserFlow w fl s of (flowResult, s1) \<Rightarrow> runCustomFlows w fls (pushResult flowResult s1))"

text \<open>The \<^verbatim>\<open>try\<close> block after the browser has been launched.\<close>

definition session :: "world \<Rightarrow> args \<Rightarrow> state \<Rightarrow> (string + tool_output) \<times> state" where
  "session w a s =
     (case call (w_newPage w) s of
        (Inl e, s1) \<Rightarrow> (Inl e, s1)
      | (Inr _, s1) \<Rightarrow>
     (case page_setViewport w (viewport a) s1 of
        (Inl e, s2) \<Rightarrow> (Inl e, s2)
      | (Inr _, s2) \<Rightarrow>
     (case runSelectedSuite w a (connectivityCheck w (url a) s2) of
        (Inl e, s4) \<Rightarrow> (Inl e, s4)
      | (Inr _, s4) \<Rightarrow>
     (case assessUIQuality w (runCustomFlows w (userFlows a) s4) of
        (Inl e, s6) \<Rightarrow> (Inl e, s6)
      | (Inr uiAssessment, s6) \<Rightarrow>
     (case assessPerformance w (pushResult uiAssessment s6) of
        (Inl e, s8) \<Rightarrow> (Inl e, s8)
      | (Inr performanceAssessment, s8) \<Rightarrow>
          (let s9 = pushResult performanceAssessment s8;
               summary = summarize (qaResults s9) (issues s9)
           in (Inr (Report summary (qaResults s9) (issues s9) []
                      (generateQARecommendations (issues s9) summary)), s9)))))))"

text \<open>\<^verbatim>\<open>browser.close()\<close>, counted.\<close>

definition browser_close :: "world \<Rightarrow> state \<Rightarrow> (string + unit) \<times> state" where
  "browser_close w s = call (w_close w) (s\<lparr>closes := Suc (closes s)\<rparr>)"

text \<open>Before the launch: no page, nothing closed, both arrays empty.\<close>

definition initialState :: state where
  "initialState = \<lparr>ticks = 0, location = ''about:blank'', pageViewport = (800, 600), closes = 0,
                    qaResults = [], issues = []\<rparr>"

text \<open>The envelope of the \<^verbatim>\<open>catch\<close> block.\<close>

definition failure :: "string \<Rightarrow> state \<Rightarrow> tool_output" where
  "failure e s = Failure e (length (qaResults s)) (length (issues s))"

text \<open>
  \<^verbatim>\<open>functionalQATool\<close>: \<^verbatim>\<open>try\<close>, \<^verbatim>\<open>catch\<close> and \<^verbatim>\<open>finally\<close>. When the launch throws,
  \<^verbatim>\<open>browser\<close> is undefined and nothing is closed. Otherwise the browser is closed after
  the \<^verbatim>\<open>try\<close> block returned or the \<^verbatim>\<open>catch\<close> block built its envelope; an exception of
  \<^verbatim>\<open>close\<close> itself is the only one that leaves the function.
\<close>

definition functionalQATool :: "world \<Rightarrow> args \<Rightarrow> (string + tool_output) \<times> state" where
  "functionalQATool w a =
     (case call (w_launch w) initialState of
        (Inl e, s1) \<Rightarrow> (Inr (failure e s1), s1)
      | (Inr _, s1) \<Rightarrow>
          (case session w a s1 of
             (r, s2) \<Rightarrow>
               (let out = (case r of Inl e \<Rightarrow> failure e s2 | Inr rep \<Rightarrow> rep)
                in case browser_close w s2 of
                     (Inl e, s3) \<Rightarrow> (Inl e, s3)
                   | (Inr _, s3) \<Rightarrow> (Inr out, s3))))"

subsection \<open>Reading results\<close>

definition stepsOf :: "test_result \<Rightarrow> step_result list" where
  "stepsOf r = (case steps r of None \<Rightarrow> [] | Some rs \<Rightarrow> rs)"

text \<open>
  \<open>appended s s' rs is\<close>: from \<open>s\<close> to \<open>s'\<close> the results \<open>rs\<close> and the issues \<open>is\<close> were
  pushed, and the browser was not closed. \<open>grows s s' names\<close>: the pushed results carry
  the test names \<open>names\<close>, in this order, and no pushed issue is a connectivity issue.
\<close>

definition appended :: "state \<Rightarrow> state \<Rightarrow> test_result list \<Rightarrow> issue_record list \<Rightarrow> bool" where
  "appended s s' rs is =
     (closes s' = closes s \<and> qaResults s' = qaResults s @ rs \<and> issues s' = issues s @ is)"

definition grows :: "state \<Rightarrow> state \<Rightarrow> string list \<Rightarrow> bool" where
  "grows s s' names =
     (\<exists>rs is. appended s s' rs is \<and> map testName rs = names
        \<and> list_all (\<lambda>i. category i \<noteq> Connectivity) is)"

text \<open>The connectivity block pushes the connectivity result, and one issue when it failed.\<close>

definition connectivityIssue :: "test_result \<Rightarrow> issue_record" where
  "connectivityIssue r =
     \<lparr>severity = critical, category = Connectivity,
      issue = (case error r of None \<Rightarrow> ''null'' | Some e \<Rightarrow> e),
      recommendation = ''Ensure the development server is running and accessible'',
      issueDetails = NoIssueDetails\<rparr>"

subsection \<open>Example pages\<close>

definition home :: string where
  "home = ''http://localhost:3000/''"

definition okResponse :: "string \<Rightarrow> response" where
  "okResponse u = \<lparr>status = 200, responseUrl = u\<rparr>"

text \<open>A page without links, images, forms or text, loaded in 5 ms.\<close>

definition emptyDom :: "string \<Rightarrow> dom" where
  "emptyDom u =
     \<lparr>d_origin = ''http://localhost:3000'', d_href = u, d_anchors = [], d_images = [],
      d_forms = [], d_inputs = [], d_querySelector = (\<lambda>sel. Inr False), d_elements = [],
      d_scrollWidth = 1280, d_innerWidth = 1280,
      d_navigationEntry = Some \<lparr>domContentLoadedEventStart = 100, domContentLoadedEventEnd = 110,
                                 loadEventStart = 200, loadEventEnd = 205\<rparr>,
      d_paints = []\<rparr>"

text \<open>A server that answers every URL with 200 and the empty page; no driver call throws.\<close>

definition quietWorld :: world where
  "quietWorld =
     \<lparr>w_launch = None, w_newPage = None,
      w_setViewport = (\<lambda>v vp. None),
      w_goto = (\<lambda>v u. Inr (Some (okResponse u))),
      w_reload = (\<lambda>v. None),
      w_title = (\<lambda>v. Inr ''Home''),
      w_dom = (\<lambda>v. Inr (emptyDom (fst (snd v)))),
      w_pageErrors = (\<lambda>v. []),
      w_waitForTimeout = (\<lambda>v n. None),
      w_waitForSelector = (\<lambda>v sel n. None),
      w_click = (\<lambda>v sel. None),
      w_type = (\<lambda>v sel txt. None),
      w_query = (\<lambda>v sel. Inr None),
      w_textContent = (\<lambda>v h. Inr None),
      w_metrics = (\<lambda>v. Inr 1000000),
      w_close = None\<rparr>"

text \<open>No server: every navigation throws.\<close>

definition downWorld :: world where
  "downWorld = quietWorld\<lparr>w_goto := (\<lambda>v u. Inl ''net::ERR_CONNECTION_REFUSED'')\<rparr>"

text \<open>A server that answers every URL with 201.\<close>

definition createdWorld :: world where
  "createdWorld = quietWorld\<lparr>w_goto := (\<lambda>v u. Inr (Some \<lparr>status = 201, responseUrl = u\<rparr>))\<rparr>"

text \<open>Only the home page can be reached.\<close>

definition homeOnlyWorld :: world where
  "homeOnlyWorld =
     quietWorld\<lparr>w_goto := (\<lambda>v u. if u = home then Inr (Some (okResponse u)) else Inl ''net::ERR_ABORTED'')\<rparr>"

text \<open>Every evaluation in the page throws.\<close>

definition noEvalWorld :: world where
  "noEvalWorld = quietWorld\<lparr>w_dom := (\<lambda>v. Inl ''Execution context was destroyed'')\<rparr>"

text \<open>
  A home page with five anchors: three internal links, one link to another origin and one
  to the page itself. Of the internal links, \<open>/missing\<close> answers 404.
\<close>

definition linksDom :: "string \<Rightarrow> dom" where
  "linksDom u =
     (emptyDom u)\<lparr>d_anchors :=
        [\<lparr>anchorHref = ''http://localhost:3000/about'', anchorText = Some ''About''\<rparr>,
         \<lparr>anchorHref = ''https://example.org/'', anchorText = Some ''Elsewhere''\<rparr>,
         \<lparr>anchorHref = ''http://localhost:3000/missing'', anchorText = Some '' Old page ''\<rparr>,
         \<lparr>anchorHref = ''http://localhost:3000/'', anchorText = Some ''Home''\<rparr>,
         \<lparr>anchorHref = ''http://localhost:3000/contact'', anchorText = None\<rparr>]\<rparr>"

definition linksWorld :: world where
  "linksWorld =
     quietWorld\<lparr>w_goto := (\<lambda>v u. Inr (Some \<lparr>status = (if u = ''http://localhost:3000/missing'' then 404 else 200),
                                              responseUrl = u\<rparr>)),
                w_dom := (\<lambda>v. Inr (linksDom (fst (snd v))))\<rparr>"

text \<open>
  A page with three images, two of them without alternative text (one attribute absent,
  one empty), and two inputs, one of them without label and accessible name.
\<close>

definition a11yDom :: "string \<Rightarrow> dom" where
  "a11yDom u =
     (emptyDom u)\<lparr>d_images :=
        [\<lparr>imgComplete = True, imgNaturalHeight = 40, imgAlt = None, imgSrc = Some ''/logo.png''\<rparr>,
         \<lparr>imgComplete = True, imgNaturalHeight = 80, imgAlt = Some ''Team'', imgSrc = Some ''/team.png''\<rparr>,
         \<lparr>imgComplete = True, imgNaturalHeight = 16, imgAlt = Some [], imgSrc = Some ''/dot.png''\<rparr>],
       d_inputs :=
        [\<lparr>inputTag = ''input'', inputId = Some ''email'', inputAriaLabel = None, inputType = Some ''email''\<rparr>,
         \<lparr>inputTag = ''input'', inputId = None, inputAriaLabel = None, inputType = Some ''text''\<rparr>],
       d_querySelector := (\<lambda>sel. Inr (sel = labelSelector ''email''))\<rparr>"

definition a11yWorld :: world where
  "a11yWorld = quietWorld\<lparr>w_dom := (\<lambda>v. Inr (a11yDom home))\<rparr>"

definition exampleArgs :: "suite \<Rightarrow> flow list \<Rightarrow> args" where
  "exampleArgs su fls = \<lparr>url = home, testSuite = su, userFlows = fls, viewport = (1280, 720)\<rparr>"

definition verifyStep :: step where
  "verifyStep = \<lparr>action = verify, selector = Some ''h1'', value = None,
                 expected = Some ''Welcome'', timeout = 5000\<rparr>"

definition gotoStep :: step where
  "gotoStep = \<lparr>action = goto, selector = None, value = Some ''http://localhost:3000/login'',
               expected = None, timeout = 5000\<rparr>"

definition verifyFlow :: flow where
  "verifyFlow = \<lparr>name = ''check heading'', flowSteps = [verifyStep]\<rparr>"

definition clickStep :: step where
  "clickStep = \<lparr>action = click, selector = Some ''#menu'', value = None, expected = None,
                timeout = 5000\<rparr>"

definition gotoFlow :: flow where
  "gotoFlow = \<lparr>name = ''login'', flowSteps = [gotoStep, clickStep]\<rparr>"

text \<open>The count a counting object holds for a category, 0 when the key is absent.\<close>

definition tally :: "(category \<times> nat) list \<Rightarrow> category \<Rightarrow> nat" where
  "tally cats c = (case map_of cats c of None \<Rightarrow> 0 | Some n \<Rightarrow> n)"

text \<open>Three issues in two categories.\<close>

definition exampleIssues :: "issue_record list" where
  "exampleIssues =
     [\<lparr>severity = critical, category = Connectivity, issue = ''HTTP 500'',
       recommendation = ''Ensure the development server is running and accessible'',
       issueDetails = NoIssueDetails\<rparr>,
      \<lparr>severity = minor, category = UIUX, issue = ''Missing alt text'',
       recommendation = ''Add descriptive alt text to all images'', issueDetails = NoIssueDetails\<rparr>,
      \<lparr>severity = minor, category = UIUX, issue = ''Text too small'',
       recommendation = ''Ensure text is at least 12px for readability'', issueDetails = NoIssueDetails\<rparr>]"

text \<open>The results and the issues of a report; none for an error envelope or an exception.\<close>

fun reportResults :: "string + tool_output \<Rightarrow> test_result list" where
  "reportResults (Inr (Report sm rs is sc recs)) = rs"
| "reportResults (Inr (Failure e n m)) = []"
| "reportResults (Inl e) = []"

fun reportIssues :: "string + tool_output \<Rightarrow> issue_record list" where
  "reportIssues (Inr (Report sm rs is sc recs)) = is"
| "reportIssues (Inr (Failure e n m)) = []"
| "reportIssues (Inl e) = []"

text \<open>
  The test names a suite can push when it does not throw, in order. The navigation and
  the form probe push a second result of the same name when a driver call throws after
  the first one was pushed.
\<close>

definition basicNames :: "string list" where
  "basicNames = [''Page Title Check'', ''Broken Images Check'', ''JavaScript Errors Check'']"

fun suiteNames :: "suite \<Rightarrow> nat \<Rightarrow> nat \<Rightarrow> string list" where
  "suiteNames basic n f = basicNames"
| "suiteNames auth n f = [''Authentication Tests'']"
| "suiteNames forms n f = replicate f ''Form Structure Check''"
| "suiteNames navigation n f = replicate n ''Navigation Links Test''"
| "suiteNames responsive n f = [''Responsive Design Test'']"
| "suiteNames comprehensive n f =
     basicNames @ replicate n ''Navigation Links Test'' @ replicate f ''Form Structure Check''
     @ [''Responsive Design Test'']"

definition flowNames :: "flow list \<Rightarrow> string list" where
  "flowNames fls = map (\<lambda>fl. ''User Flow: '' @ name fl) fls"

text \<open>
  The state in which the connectivity test starts: the launch, \<^verbatim>\<open>newPage\<close> and
  \<^verbatim>\<open>setViewport\<close> have returned, the page is still blank and nothing has been pushed.
\<close>

definition pageReady :: "args \<Rightarrow> state" where
  "pageReady a = \<lparr>ticks = 3, location = ''about:blank'', pageViewport = viewport a, closes = 0,
                   qaResults = [], issues = []\<rparr>"


text \<open>The page has been opened and shows the home page.\<close>

definition atHome :: "suite \<Rightarrow> state" where
  "atHome su = (pageReady (exampleArgs su []))\<lparr>location := home\<rparr>"

subsection \<open>A flow as the driver sees it\<close>

text \<open>
  What the driver is asked and what it answers when the calls of one step are made,
  written on the browser alone: no step result, no flow result, no arrays. \<open>called v\<close>
  is the browser after one more driver call.
\<close>

definition called :: "view \<Rightarrow> view" where
  "called v = (Suc (fst v), snd v)"

definition gotoTarget :: "step \<Rightarrow> string" where
  "gotoTarget st = (case value st of None \<Rightarrow> [] | Some u \<Rightarrow> u)"

text \<open>The exception the calls of a step end in, if any: a later call is made only when the earlier one returned.\<close>

definition stepThrows :: "world \<Rightarrow> step \<Rightarrow> view \<Rightarrow> string option" where
  "stepThrows w st v =
     (case action st of
        goto \<Rightarrow> (case w_goto w v (gotoTarget st) of Inl e \<Rightarrow> Some e | Inr r \<Rightarrow> None)
      | click \<Rightarrow>
          (case w_waitForSelector w v (selector st) (timeout st) of
             Some e \<Rightarrow> Some e
           | None \<Rightarrow> w_click w (called v) (selector st))
      | type \<Rightarrow>
          (case w_waitForSelector w v (selector st) (timeout st) of
             Some e \<Rightarrow> Some e
           | None \<Rightarrow> w_type w (called v) (selector st) (value st))
      | wait \<Rightarrow> w_waitForTimeout w v (timeout st)
      | screenshot \<Rightarrow> None
      | verify \<Rightarrow>
          (case w_query w v (selector st) of
             Inl e \<Rightarrow> Some e
           | Inr None \<Rightarrow> None
           | Inr (Some h) \<Rightarrow>
               (case w_textContent w (called v) h of Inl e \<Rightarrow> Some e | Inr t \<Rightarrow> None)))"

text \<open>
  The text a \<^verbatim>\<open>verify\<close> step reads: none when the element is missing, when a call
  throws or when the element has no text.
\<close>

definition textRead :: "world \<Rightarrow> step \<Rightarrow> view \<Rightarrow> string option" where
  "textRead w st v =
     (case w_query w v (selector st) of
        Inl e \<Rightarrow> None
      | Inr None \<Rightarrow> None
      | Inr (Some h) \<Rightarrow>
          (case w_textContent w (called v) h of Inl e \<Rightarrow> None | Inr t \<Rightarrow> t))"

text \<open>
  Whether the step counts as passed: a navigation, a click, a typing and a wait when no
  call threw; a verification when the text read includes the expected text; a screenshot
  never.
\<close>

definition stepSucceeds :: "world \<Rightarrow> step \<Rightarrow> view \<Rightarrow> bool" where
  "stepSucceeds w st v =
     (stepThrows w st v = None
      \<and> (case action st of
            screenshot \<Rightarrow> False
          | verify \<Rightarrow>
              (case textRead w st v of
                 None \<Rightarrow> False
               | Some t \<Rightarrow> includesStr t (case expected st of None \<Rightarrow> ''undefined'' | Some x \<Rightarrow> x))
          | _ \<Rightarrow> True))"

text \<open>
  The browser after the calls of a step: one call more for each call made, and at the URL
  a navigation that returned led to.
\<close>

definition viewAfterStep :: "world \<Rightarrow> step \<Rightarrow> view \<Rightarrow> view" where
  "viewAfterStep w st v =
     (case action st of
        goto \<Rightarrow>
          (case w_goto w v (gotoTarget st) of
             Inl e \<Rightarrow> called v
           | Inr None \<Rightarrow> (Suc (fst v), gotoTarget st, snd (snd v))
           | Inr (Some r) \<Rightarrow> (Suc (fst v), responseUrl r, snd (snd v)))
      | click \<Rightarrow>
          (case w_waitForSelector w v (selector st) (timeout st) of
             Some e \<Rightarrow> called v
           | None \<Rightarrow> called (called v))
      | type \<Rightarrow>
          (case w_waitForSelector w v (selector st) (timeout st) of
             Some e \<Rightarrow> called v
           | None \<Rightarrow> called (called v))
      | wait \<Rightarrow> called v
      | screenshot \<Rightarrow> v
      | verify \<Rightarrow>
          (case w_query w v (selector st) of
             Inl e \<Rightarrow> called v
           | Inr None \<Rightarrow> called v
           | Inr (Some h) \<Rightarrow> called (called v)))"

text \<open>
  The steps of a flow one after the other, each from the browser the one before left,
  whatever the one before answered: the exception and the verdict of every step, and the
  browser after the last.
\<close>

fun expectedOutcomes :: "world \<Rightarrow> step list \<Rightarrow> view \<Rightarrow> (string option \<times> bool) list" where
  "expectedOutcomes w [] v = []"
| "expectedOutcomes w (st # sts) v =
     (stepThrows w st v, stepSucceeds w st v) # expectedOutcomes w sts (viewAfterStep w st v)"

fun viewAfterSteps :: "world \<Rightarrow> step list \<Rightarrow> view \<Rightarrow> view" where
  "viewAfterSteps w [] v = v"
| "viewAfterSteps w (st # sts) v = viewAfterSteps w sts (viewAfterStep w st v)"

subsection \<open>Reading the issues by category\<close>






text \<open>
  A page with one input whose \<^verbatim>\<open>id\<close> holds a double quote: the selector built from it
  cannot be parsed, and the lookup throws.
\<close>

definition quoteDom :: dom where
  "quoteDom =
     (emptyDom home)\<lparr>d_inputs :=
        [\<lparr>inputTag = ''input'', inputId = Some (''a'' @ [CHR 0x22] @ ''b''), inputAriaLabel = None,
          inputType = Some ''text''\<rparr>],
       d_querySelector := (\<lambda>sel. if sel = labelSelector (''a'' @ [CHR 0x22] @ ''b'')
                                  then Inl ''SyntaxError: not a valid selector'' else Inr False)\<rparr>"

definition quoteWorld :: world where
  "quoteWorld = quietWorld\<lparr>w_dom := (\<lambda>v. Inr quoteDom)\<rparr>"

section \<open>Properties\<close>

lemmas driver_defs = call_def ask_def tick_def view_def page_goto_def page_setViewport_def
  page_evaluate_def pushResult_def pushIssue_def pushIssues_def resultOk_def resultError_def

lemmas probe_defs = testConnectivity_def titleCheck_def brokenImagesCheck_def jsErrorsCheck_def
  runBasicTests_def findLinks_def runNavigationTests_def readForms_def unlabelled_def
  labelSelector_def findLabel_def labelIssueOf_def
  findUnlabelled_def runFormTests_def viewports_def viewportFailed_def testViewport_def
  runResponsiveTests_def smallText_def missingAlt_def findUiProblems_def uiIssueRecord_def
  assessUIQuality_def paintStart_def readPerformance_def performanceIssuesOf_def
  assessPerformance_def stepSwitch_def pushStep_def runStep_def runUserFlow_def

lemmas tool_defs = summarize_def categoryCounts_def generateQARecommendations_def
  connectivityCheck_def runSelectedSuite_def session_def browser_close_def initialState_def
  failure_def functionalQATool_def

lemmas example_defs = home_def okResponse_def emptyDom_def quietWorld_def downWorld_def
  createdWorld_def homeOnlyWorld_def noEvalWorld_def linksDom_def linksWorld_def a11yDom_def
  a11yWorld_def exampleArgs_def verifyStep_def gotoStep_def clickStep_def verifyFlow_def gotoFlow_def
  trim_def isSpace_def

subsection \<open>What a probe leaves behind\<close>

lemma grows_refl: "grows s s []"
  by (simp add: grows_def appended_def)

lemma grows_trans:
  assumes "grows s s1 ns1" and "grows s1 s2 ns2"
  shows "grows s s2 (ns1 @ ns2)"
proof -
  from assms(1) obtain rs1 is1 where
    1: "appended s s1 rs1 is1" "map testName rs1 = ns1" "list_all (\<lambda>i. category i \<noteq> Connectivity) is1"
    by (auto simp: grows_def)
  from assms(2) obtain rs2 is2 where
    2: "appended s1 s2 rs2 is2" "map testName rs2 = ns2" "list_all (\<lambda>i. category i \<noteq> Connectivity) is2"
    by (auto simp: grows_def)
  from 1 2 have "appended s s2 (rs1 @ rs2) (is1 @ is2)"
    by (simp add: appended_def)
  with 1 2 show ?thesis
    unfolding grows_def by (intro exI [of _ "rs1 @ rs2"] exI [of _ "is1 @ is2"]) simp
qed

lemma grows_closes: "grows s s' ns \<Longrightarrow> closes s' = closes s"
  by (auto simp: grows_def appended_def)

lemma grows_tick: "grows s (tick s) []"
  by (simp add: grows_def appended_def tick_def)

lemma grows_call: "grows s (snd (call a s)) []"
  by (simp add: grows_def appended_def call_def tick_def split: option.splits)

lemma grows_ask: "grows s (snd (ask a s)) []"
  by (simp add: grows_def appended_def ask_def tick_def)

lemma grows_goto: "grows s (snd (page_goto w u s)) []"
  by (simp add: grows_def appended_def page_goto_def tick_def split: sum.splits)

lemma grows_setViewport: "grows s (snd (page_setViewport w vp s)) []"
  by (simp add: grows_def appended_def page_setViewport_def tick_def split: option.splits)

lemma grows_evaluate: "grows s (snd (page_evaluate w f s)) []"
  by (simp add: grows_def appended_def page_evaluate_def tick_def split: sum.splits)

lemma grows_pushResult: "grows s (pushResult r s) [testName r]"
  by (simp add: grows_def appended_def pushResult_def)

lemma grows_pushIssue: "category i \<noteq> Connectivity \<Longrightarrow> grows s (pushIssue i s) []"
  by (simp add: grows_def appended_def pushIssue_def)

lemma grows_pushIssues: "list_all (\<lambda>i. category i \<noteq> Connectivity) is \<Longrightarrow> grows s (pushIssues is s) []"
  by (simp add: grows_def appended_def pushIssues_def)

lemma grows_step: "grows s s1 ns1 \<Longrightarrow> grows s1 s2 [] \<Longrightarrow> grows s s2 ns1"
  using grows_trans [of s s1 ns1 s2 "[]"] by simp

lemma grows_step0: "grows s s1 [] \<Longrightarrow> grows s1 s2 ns \<Longrightarrow> grows s s2 ns"
  using grows_trans [of s s1 "[]" s2 ns] by simp

lemma grows_maybe_issue:
  "grows s s1 ns \<Longrightarrow> category i \<noteq> Connectivity \<Longrightarrow> grows s (if c then pushIssue i s1 else s1) ns"
  using grows_step [OF _ grows_pushIssue] by simp

lemma testName_resultOk [simp]: "testName (resultOk n p d) = n"
  by (simp add: resultOk_def)

lemma testName_resultError [simp]: "testName (resultError n e) = n"
  by (simp add: resultError_def)

lemma grows_titleCheck: "grows s (titleCheck w s) [''Page Title Check'']"
  by (auto simp: titleCheck_def grows_def appended_def driver_defs Let_def split: sum.splits)

lemma grows_brokenImagesCheck: "grows s (brokenImagesCheck w s) [''Broken Images Check'']"
  by (auto simp: brokenImagesCheck_def grows_def appended_def driver_defs Let_def split: sum.splits)

lemma grows_jsErrorsCheck:
  "grows s (snd (jsErrorsCheck w s))
     (case fst (jsErrorsCheck w s) of Inl e \<Rightarrow> [] | Inr u \<Rightarrow> [''JavaScript Errors Check''])"
  by (auto simp: jsErrorsCheck_def grows_def appended_def driver_defs Let_def split: sum.splits option.splits)

lemma grows_runBasicTests:
  "grows s (snd (runBasicTests w u s))
     ([''Page Title Check'', ''Broken Images Check'']
      @ (case fst (runBasicTests w u s) of Inl e \<Rightarrow> [] | Inr x \<Rightarrow> [''JavaScript Errors Check'']))"
  unfolding runBasicTests_def
  using grows_trans [OF grows_trans [OF grows_titleCheck grows_brokenImagesCheck] grows_jsErrorsCheck]
  by simp

lemma grows_testLinks: "grows s (snd (testLinks w ls acc s)) []"
proof (induction ls arbitrary: acc s)
  case Nil
  then show ?case by (simp add: grows_refl)
next
  case (Cons l ls)
  obtain wl bl dl where acc: "acc = (wl, bl, dl)" by (cases acc)
  obtain r s1 where g: "page_goto w (linkHref l) s = (r, s1)" by (cases "page_goto w (linkHref l) s")
  have 1: "grows s s1 []" using grows_goto [of s w "linkHref l"] g by simp
  show ?case
    using grows_step0 [OF 1 Cons.IH] acc g
    by (simp split: sum.splits)
qed

lemma grows_runNavigationTests:
  "grows s (runNavigationTests w u s) [''Navigation Links Test'']
   \<or> grows s (runNavigationTests w u s) [''Navigation Links Test'', ''Navigation Links Test'']"
proof (cases "page_evaluate w (\<lambda>d. Inr (findLinks d)) s")
  case (Pair r s1)
  have 1: "grows s s1 []" using grows_evaluate [of s w "\<lambda>d. Inr (findLinks d)"] Pair by simp
  show ?thesis
  proof (cases r)
    case (Inl e)
    then show ?thesis
      using Pair grows_trans [OF 1 grows_pushResult [of s1 "resultError ''Navigation Links Test'' e"]]
      by (simp add: runNavigationTests_def)
  next
    case (Inr links)
    obtain wl bl dl s2 where t: "testLinks w (take 10 links) (0, 0, []) s1 = ((wl, bl, dl), s2)"
      by (metis prod_cases3 surj_pair)
    have 2: "grows s s2 []"
      using grows_step0 [OF 1 grows_testLinks [of s1 w "take 10 links" "(0, 0, [])"]] t by simp
    let ?r = "resultOk ''Navigation Links Test'' (bl = 0)
                (NavigationDetails (length links) (length (take 10 links)) wl bl dl)"
    let ?s3 = "pushResult ?r s2"
    let ?i = "\<lparr>severity = major, category = Navigation,
               issue = showNat bl @ '' broken internal link(s) found'',
               recommendation = ''Fix broken navigation links to improve user experience'',
               issueDetails = BrokenLinkList dl\<rparr>"
    let ?s4 = "if bl > 0 then pushIssue ?i ?s3 else ?s3"
    have 3: "grows s ?s3 [''Navigation Links Test'']"
      using grows_trans [OF 2 grows_pushResult [of s2 ?r]] by simp
    have 4: "grows s ?s4 [''Navigation Links Test'']"
      by (rule grows_maybe_issue [OF 3]) simp
    obtain r5 s5 where g: "page_goto w u ?s4 = (r5, s5)" by (cases "page_goto w u ?s4")
    have 5: "grows s s5 [''Navigation Links Test'']"
      using grows_step [OF 4 grows_goto [of ?s4 w u]] g by simp
    show ?thesis
    proof (cases r5)
      case (Inl e)
      have "grows s (pushResult (resultError ''Navigation Links Test'' e) s5)
              [''Navigation Links Test'', ''Navigation Links Test'']"
        using grows_trans [OF 5 grows_pushResult [of s5 "resultError ''Navigation Links Test'' e"]]
        by simp
      then show ?thesis
        using Pair Inr t g Inl by (simp add: runNavigationTests_def Let_def)
    next
      case (Inr x)
      then show ?thesis
        using Pair \<open>r = Inr links\<close> t g 5 by (simp add: runNavigationTests_def Let_def)
    qed
  qed
qed

lemma grows_runFormTests:
  "grows s (runFormTests w u s) [''Form Structure Check'']
   \<or> grows s (runFormTests w u s) [''Form Structure Check'', ''Form Structure Check'']"
  by (auto simp: runFormTests_def grows_def appended_def driver_defs Let_def split: sum.splits)

lemma grows_testViewport: "grows s (snd (testViewport w vp rr s)) []"
  by (auto simp: testViewport_def grows_def appended_def driver_defs Let_def
           split: sum.splits option.splits)

lemma grows_testViewports: "grows s (snd (testViewports w vps rr s)) []"
proof (induction vps arbitrary: rr s)
  case Nil
  then show ?case by (simp add: grows_refl)
next
  case (Cons vp vps)
  obtain rr1 s1 where t: "testViewport w vp rr s = (rr1, s1)" by (cases "testViewport w vp rr s")
  have 1: "grows s s1 []" using grows_testViewport [of s w vp rr] t by simp
  show ?case using grows_step0 [OF 1 Cons.IH] t by simp
qed

lemma grows_runResponsiveTests: "grows s (runResponsiveTests w u s) [''Responsive Design Test'']"
proof -
  obtain rr s1 where t: "testViewports w viewports [] s = (rr, s1)"
    by (cases "testViewports w viewports [] s")
  have 1: "grows s s1 []" using grows_testViewports [of s w viewports "[]"] t by simp
  let ?r = "resultOk ''Responsive Design Test'' (list_all vtPassed rr) (ResponsiveDetails rr)"
  show ?thesis
    using grows_trans [OF 1 grows_pushResult [of s1 ?r]] t by (simp add: runResponsiveTests_def)
qed

lemma unchanged_call: "call a s = (r, s1) \<Longrightarrow> appended s s1 [] []"
  by (auto simp: call_def appended_def tick_def split: option.splits)

lemma unchanged_ask: "ask a s = (r, s1) \<Longrightarrow> appended s s1 [] []"
  by (auto simp: ask_def appended_def tick_def)

lemma unchanged_goto: "page_goto w u s = (r, s1) \<Longrightarrow> appended s s1 [] []"
  by (auto simp: page_goto_def appended_def tick_def split: sum.splits)

lemma unchanged_trans: "appended s s1 [] [] \<Longrightarrow> appended s1 s2 [] [] \<Longrightarrow> appended s s2 [] []"
  by (simp add: appended_def)

lemma unchanged_grows: "appended s s' [] [] \<Longrightarrow> grows s s' []"
  unfolding grows_def by (intro exI [of _ "[]"]) simp

lemma unchanged_stepSwitch: "stepSwitch w st r s = (x, s') \<Longrightarrow> appended s s' [] []"
proof (cases "action st")
  case goto
  then show "stepSwitch w st r s = (x, s') \<Longrightarrow> appended s s' [] []"
    by (auto simp: stepSwitch_def split: prod.splits sum.splits dest: unchanged_goto)
next
  case click
  then show "stepSwitch w st r s = (x, s') \<Longrightarrow> appended s s' [] []"
    by (auto simp: stepSwitch_def split: prod.splits sum.splits
             dest!: unchanged_call intro: unchanged_trans)
next
  case type
  then show "stepSwitch w st r s = (x, s') \<Longrightarrow> appended s s' [] []"
    by (auto simp: stepSwitch_def split: prod.splits sum.splits
             dest!: unchanged_call intro: unchanged_trans)
next
  case wait
  then show "stepSwitch w st r s = (x, s') \<Longrightarrow> appended s s' [] []"
    by (auto simp: stepSwitch_def split: prod.splits sum.splits dest: unchanged_call)
next
  case screenshot
  then show "stepSwitch w st r s = (x, s') \<Longrightarrow> appended s s' [] []"
    by (auto simp: stepSwitch_def appended_def)
next
  case verify
  then show "stepSwitch w st r s = (x, s') \<Longrightarrow> appended s s' [] []"
    by (auto simp: stepSwitch_def split: prod.splits sum.splits option.splits
             dest!: unchanged_ask intro: unchanged_trans)
qed

lemma grows_stepSwitch: "grows s (snd (stepSwitch w st r s)) []"
  using unchanged_stepSwitch [of w st r s]
  by (cases "stepSwitch w st r s") (simp add: unchanged_grows)

lemma grows_runStep: "grows s (snd (runStep w st i fr s)) []"
proof -
  let ?sr = "\<lparr>stepNumber = i + 1, stepAction = action st, stepSelector = selector st,
              stepValue = value st, stepPassed = False, stepError = None, verified = None\<rparr>"
  obtain r s1 where t: "stepSwitch w st ?sr s = (r, s1)" by (cases "stepSwitch w st ?sr s")
  have "grows s s1 []" using grows_stepSwitch [of s w st ?sr] t by simp
  then show ?thesis using t by (cases r) (simp_all add: runStep_def)
qed

lemma testName_runStep: "testName (fst (runStep w st i fr s)) = testName fr"
  by (auto simp: runStep_def Let_def pushStep_def split: prod.splits sum.splits)

lemma grows_runSteps: "grows s (snd (runSteps w sts i fr s)) []"
proof (induction sts arbitrary: i fr s)
  case Nil
  then show ?case by (simp add: grows_refl)
next
  case (Cons st sts)
  obtain fr1 s1 where t: "runStep w st i fr s = (fr1, s1)" by (cases "runStep w st i fr s")
  have 1: "grows s s1 []" using grows_runStep [of s w st i fr] t by simp
  show ?case using grows_step0 [OF 1 Cons.IH] t by simp
qed

lemma testName_runSteps: "testName (fst (runSteps w sts i fr s)) = testName fr"
proof (induction sts arbitrary: i fr s)
  case Nil
  then show ?case by simp
next
  case (Cons st sts)
  obtain fr1 s1 where t: "runStep w st i fr s = (fr1, s1)" by (cases "runStep w st i fr s")
  show ?case using Cons.IH [of "Suc i" fr1 s1] testName_runStep [of w st i fr s] t by simp
qed

lemma grows_runUserFlow: "grows s (snd (runUserFlow w fl s)) []"
proof -
  let ?fr0 = "\<lparr>testName = ''User Flow: '' @ name fl, passed = True, error = None,
               steps = Some [], details = NoDetails\<rparr>"
  obtain fr s1 where t: "runSteps w (flowSteps fl) 0 ?fr0 s = (fr, s1)"
    by (cases "runSteps w (flowSteps fl) 0 ?fr0 s")
  have 1: "grows s s1 []" using grows_runSteps [of s w "flowSteps fl" 0 ?fr0] t by simp
  show ?thesis
    using grows_maybe_issue [OF 1] t by (simp add: runUserFlow_def Let_def)
qed

lemma testName_runUserFlow: "testName (fst (runUserFlow w fl s)) = ''User Flow: '' @ name fl"
proof -
  let ?fr0 = "\<lparr>testName = ''User Flow: '' @ name fl, passed = True, error = None,
               steps = Some [], details = NoDetails\<rparr>"
  obtain fr s1 where t: "runSteps w (flowSteps fl) 0 ?fr0 s = (fr, s1)"
    by (cases "runSteps w (flowSteps fl) 0 ?fr0 s")
  show ?thesis
    using testName_runSteps [of w "flowSteps fl" 0 ?fr0 s] t by (simp add: runUserFlow_def)
qed

lemma grows_runCustomFlows:
  "grows s (runCustomFlows w fls s) (map (\<lambda>fl. ''User Flow: '' @ name fl) fls)"
proof (induction fls arbitrary: s)
  case Nil
  then show ?case by (simp add: grows_refl)
next
  case (Cons fl fls)
  obtain fr s1 where t: "runUserFlow w fl s = (fr, s1)" by (cases "runUserFlow w fl s")
  have 1: "grows s s1 []" using grows_runUserFlow [of s w fl] t by simp
  have 2: "testName fr = ''User Flow: '' @ name fl" using testName_runUserFlow [of w fl s] t by simp
  have 3: "grows s (pushResult fr s1) [''User Flow: '' @ name fl]"
    using grows_trans [OF 1 grows_pushResult [of s1 fr]] 2 by simp
  show ?case using grows_trans [OF 3 Cons.IH] t by simp
qed

lemma grows_assessUIQuality: "grows s (snd (assessUIQuality w s)) []"
  by (auto simp: assessUIQuality_def grows_def appended_def driver_defs uiIssueRecord_def
                 list_all_iff split: sum.splits)

lemma grows_assessPerformance: "grows s (snd (assessPerformance w s)) []"
  by (auto simp: assessPerformance_def grows_def appended_def driver_defs performanceIssuesOf_def
                 Let_def split: sum.splits)

lemma testName_assessUIQuality:
  "assessUIQuality w s = (Inr r, s') \<Longrightarrow> testName r = ''UI Quality Assessment''"
  by (auto simp: assessUIQuality_def driver_defs split: sum.splits prod.splits)

lemma testName_assessPerformance:
  "assessPerformance w s = (Inr r, s') \<Longrightarrow> testName r = ''Performance Assessment''"
  by (auto simp: assessPerformance_def driver_defs Let_def split: sum.splits prod.splits)

lemma grows_runSelectedSuite:
  "\<exists>ns. grows s (snd (runSelectedSuite w a s)) ns"
proof (cases "testSuite a")
  case basic
  then show ?thesis using grows_runBasicTests [of s w "url a"] by (auto simp: runSelectedSuite_def)
next
  case auth
  then show ?thesis using grows_pushResult by (auto simp: runSelectedSuite_def)
next
  case forms
  then show ?thesis using grows_runFormTests [of s w "url a"] by (auto simp: runSelectedSuite_def)
next
  case navigation
  then show ?thesis using grows_runNavigationTests [of s w "url a"] by (auto simp: runSelectedSuite_def)
next
  case responsive
  then show ?thesis using grows_runResponsiveTests [of s w "url a"] by (auto simp: runSelectedSuite_def)
next
  case comprehensive
  obtain r s1 where b: "runBasicTests w (url a) s = (r, s1)" by (cases "runBasicTests w (url a) s")
  from grows_runBasicTests [of s w "url a"] b obtain n1 where 1: "grows s s1 n1" by auto
  from grows_runNavigationTests [of s1 w "url a"] obtain n2
    where 2: "grows s1 (runNavigationTests w (url a) s1) n2" by auto
  from grows_runFormTests [of "runNavigationTests w (url a) s1" w "url a"] obtain n3
    where 3: "grows (runNavigationTests w (url a) s1) (runFormTests w (url a) (runNavigationTests w (url a) s1)) n3"
    by auto
  note 4 = grows_runResponsiveTests [of "runFormTests w (url a) (runNavigationTests w (url a) s1)" w "url a"]
  note all = grows_trans [OF grows_trans [OF grows_trans [OF 1 2] 3] 4]
  show ?thesis
  proof (cases r)
    case (Inl e)
    then show ?thesis using comprehensive b 1 by (auto simp: runSelectedSuite_def)
  next
    case (Inr x)
    then show ?thesis using comprehensive b all by (auto simp: runSelectedSuite_def)
  qed
qed

subsection \<open>The connectivity block and the session\<close>

lemma unchanged_testConnectivity: "appended s (snd (testConnectivity w u s)) [] []"
  by (auto simp: testConnectivity_def page_goto_def tick_def appended_def resultError_def
           split: sum.splits)

lemma connectivityCheck_effect:
  "appended s (connectivityCheck w u s) [fst (testConnectivity w u s)]
     (if passed (fst (testConnectivity w u s)) then []
      else [connectivityIssue (fst (testConnectivity w u s))])"
  using unchanged_testConnectivity [of s w u]
  by (cases "testConnectivity w u s")
     (simp add: connectivityCheck_def connectivityIssue_def appended_def pushResult_def pushIssue_def
        Let_def)

lemma closes_connectivityCheck [simp]: "closes (connectivityCheck w u s) = closes s"
  using connectivityCheck_effect [of s w u] by (simp add: appended_def)

lemma closes_pushResult [simp]: "closes (pushResult r s) = closes s"
  by (simp add: pushResult_def)

lemma closes_runCustomFlows [simp]: "closes (runCustomFlows w fls s) = closes s"
  by (rule grows_closes [OF grows_runCustomFlows])

lemma closes_call: "call a s = (r, s1) \<Longrightarrow> closes s1 = closes s"
  using grows_closes [OF grows_call [of s a]] by simp

lemma closes_setViewport: "page_setViewport w vp s = (r, s1) \<Longrightarrow> closes s1 = closes s"
  using grows_closes [OF grows_setViewport [of s w vp]] by simp

lemma closes_runSelectedSuite: "runSelectedSuite w a s = (r, s1) \<Longrightarrow> closes s1 = closes s"
  using grows_runSelectedSuite [of s w a] by (auto dest: grows_closes)

lemma closes_assessUIQuality: "assessUIQuality w s = (r, s1) \<Longrightarrow> closes s1 = closes s"
  using grows_closes [OF grows_assessUIQuality [of s w]] by simp

lemma closes_assessPerformance: "assessPerformance w s = (r, s1) \<Longrightarrow> closes s1 = closes s"
  using grows_closes [OF grows_assessPerformance [of s w]] by simp

lemma closes_session: "closes (snd (session w a s)) = closes s"
  by (auto simp: session_def Let_def split: prod.splits sum.splits
           dest!: closes_call closes_setViewport closes_runSelectedSuite closes_assessUIQuality
                  closes_assessPerformance)

lemma closes_functionalQATool:
  "closes (snd (functionalQATool w a)) = (if w_launch w = None then 1 else 0)"
proof (cases "w_launch w")
  case None
  have "closes (snd (call None initialState)) = 0"
    by (simp add: call_def tick_def initialState_def)
  then show ?thesis
    using None closes_session [of w a "snd (call None initialState)"]
    by (auto simp: functionalQATool_def browser_close_def call_def tick_def Let_def
             split: prod.splits sum.splits option.splits)
next
  case (Some e)
  then show ?thesis
    by (simp add: functionalQATool_def call_def tick_def initialState_def)
qed

subsection \<open>The report, its summary and the cleanup\<close>

lemma session_report:
  "session w a s = (Inr out, s') \<Longrightarrow>
     out = Report (summarize (qaResults s') (issues s')) (qaResults s') (issues s') []
             (generateQARecommendations (issues s') (summarize (qaResults s') (issues s')))"
  by (auto simp: session_def Let_def split: prod.splits sum.splits)

lemma unchanged_browser_close:
  "qaResults (snd (browser_close w s)) = qaResults s \<and> issues (snd (browser_close w s)) = issues s"
  by (simp add: browser_close_def call_def tick_def split: option.splits)

lemma tool_report:
  assumes "fst (functionalQATool w a) = Inr (Report sm rs is sc recs)"
  shows "rs = qaResults (snd (functionalQATool w a)) \<and> is = issues (snd (functionalQATool w a))
         \<and> sm = summarize rs is \<and> sc = [] \<and> recs = generateQARecommendations is sm
         \<and> (\<exists>s1. call (w_launch w) initialState = (Inr (), s1)
                \<and> fst (session w a s1) = Inr (Report sm rs is sc recs)
                \<and> qaResults (snd (session w a s1)) = rs \<and> issues (snd (session w a s1)) = is)"
proof -
  obtain l s1 where l: "call (w_launch w) initialState = (l, s1)"
    by (cases "call (w_launch w) initialState")
  obtain r s2 where r: "session w a s1 = (r, s2)" by (cases "session w a s1")
  obtain c s3 where c: "browser_close w s2 = (c, s3)" by (cases "browser_close w s2")
  from assms l have l': "l = Inr ()"
    by (cases l) (simp_all add: functionalQATool_def failure_def)
  from assms l l' r c have c': "c = Inr ()"
    by (cases c) (simp_all add: functionalQATool_def)
  from assms l l' r c c' have r': "r = Inr (Report sm rs is sc recs)"
    by (cases r) (simp_all add: functionalQATool_def failure_def)
  from session_report [of w a s1 "Report sm rs is sc recs" s2] r r'
  have shape: "rs = qaResults s2" "is = issues s2" "sm = summarize rs is" "sc = []"
    "recs = generateQARecommendations is sm"
    by simp_all
  have s3: "snd (functionalQATool w a) = s3"
    using l l' r c c' by (simp add: functionalQATool_def)
  from unchanged_browser_close [of w s2] c
  have "qaResults s3 = qaResults s2" "issues s3 = issues s2" by simp_all
  with shape s3 l l' r r' show ?thesis by simp
qed

text \<open>
  C6. Whenever the tool returns a report, its summary is computed from the collected
  results: \<open>passed + failed = totalTests\<close>, where \<open>totalTests\<close> is the number of
  results, \<open>passed\<close> the number of results whose \<open>passed\<close> is true and \<open>failed\<close> the
  number of the others.
\<close>

theorem summary_counts_add_up:
  "fst (functionalQATool w a) = Inr (Report sm rs is sc recs) \<Longrightarrow>
     passedTests sm + failedTests sm = totalTests sm
     \<and> totalTests sm = length rs
     \<and> passedTests sm = length (filter (\<lambda>r. passed r) rs)
     \<and> failedTests sm = length (filter (\<lambda>r. \<not> passed r) rs)"
  using tool_report [of w a sm rs "is" sc recs] sum_length_filter_compl [of "\<lambda>r. passed r" rs]
  by (simp add: summarize_def)

theorem summary_counts_add_up_witness:
  "fst (functionalQATool quietWorld (exampleArgs auth [])) =
     Inr (Report \<lparr>totalTests = 4, passedTests = 4, failedTests = 0, issueCount = 0,
                   criticalIssues = 0, majorIssues = 0, minorIssues = 0\<rparr>
            (qaResults (snd (functionalQATool quietWorld (exampleArgs auth [])))) [] [] [excellentLine])
   \<and> length (qaResults (snd (functionalQATool quietWorld (exampleArgs auth [])))) = 4"
proof -
  have run: "fst (functionalQATool quietWorld (exampleArgs auth [])) =
     Inr (Report \<lparr>totalTests = 4, passedTests = 4, failedTests = 0, issueCount = 0,
                   criticalIssues = 0, majorIssues = 0, minorIssues = 0\<rparr>
            (qaResults (snd (functionalQATool quietWorld (exampleArgs auth [])))) [] [] [excellentLine])"
    by (simp add: driver_defs probe_defs tool_defs example_defs)
  from summary_counts_add_up [OF run] run show ?thesis by simp
qed

text \<open>
  C5. Whenever the browser was launched, \<^verbatim>\<open>browser.close\<close> is called exactly once, whatever
  the world answers afterwards: whether the \<^verbatim>\<open>try\<close> block returns its report or a probe,
  a flow or an assessment throws and the \<^verbatim>\<open>catch\<close> block builds its envelope.
\<close>

theorem close_invoked_exactly_once:
  "w_launch w = None \<Longrightarrow> closes (snd (functionalQATool w a)) = 1"
  by (simp add: closes_functionalQATool)

theorem close_invoked_exactly_once_witness:
  "w_launch quietWorld = None
   \<and> closes (snd (functionalQATool quietWorld (exampleArgs comprehensive [verifyFlow]))) = 1
   \<and> w_launch noEvalWorld = None
   \<and> fst (functionalQATool noEvalWorld (exampleArgs basic [])) =
         Inr (Failure ''Execution context was destroyed'' 4 0)
   \<and> closes (snd (functionalQATool noEvalWorld (exampleArgs basic []))) = 1"
proof -
  have 1: "w_launch quietWorld = None" by (simp add: quietWorld_def)
  have 2: "w_launch noEvalWorld = None" by (simp add: noEvalWorld_def quietWorld_def)
  have 3: "fst (functionalQATool noEvalWorld (exampleArgs basic [])) =
         Inr (Failure ''Execution context was destroyed'' 4 0)"
    by (simp add: driver_defs probe_defs tool_defs example_defs)
  from 1 2 3 close_invoked_exactly_once [OF 1, of "exampleArgs comprehensive [verifyFlow]"]
    close_invoked_exactly_once [OF 2, of "exampleArgs basic []"]
  show ?thesis by simp
qed

subsection \<open>User flows\<close>

lemma stepsOf_pushStep: "stepsOf (pushStep r fr) = stepsOf fr @ [r]"
  by (simp add: stepsOf_def pushStep_def)

lemma stepsOf_passed_update: "stepsOf (fr\<lparr>passed := b\<rparr>) = stepsOf fr"
  by (simp add: stepsOf_def)

lemma passed_pushStep: "passed (pushStep r fr) = passed fr"
  by (simp add: pushStep_def)

lemma stepSwitch_keeps:
  "stepSwitch w st r s = (Inr r', s') \<Longrightarrow>
     stepNumber r' = stepNumber r \<and> stepAction r' = stepAction r \<and> stepError r' = stepError r"
  by (cases "action st")
     (auto simp: stepSwitch_def split: prod.splits sum.splits option.splits)

text \<open>
  One iteration pushes one step result. The flow is marked as failed exactly when the
  step threw, and a step that threw is marked as failed.
\<close>

lemma runStep_effect:
  "\<exists>r. stepsOf (fst (runStep w st i fr s)) = stepsOf fr @ [r]
       \<and> stepNumber r = i + 1 \<and> stepAction r = action st
       \<and> passed (fst (runStep w st i fr s)) = (passed fr \<and> stepError r = None)
       \<and> (stepError r \<noteq> None \<longrightarrow> \<not> stepPassed r)"
proof -
  let ?sr = "\<lparr>stepNumber = i + 1, stepAction = action st, stepSelector = selector st,
              stepValue = value st, stepPassed = False, stepError = None, verified = None\<rparr>"
  obtain x s1 where t: "stepSwitch w st ?sr s = (x, s1)" by (cases "stepSwitch w st ?sr s")
  show ?thesis
  proof (cases x)
    case (Inl e)
    with t show ?thesis
      by (simp add: runStep_def stepsOf_pushStep stepsOf_passed_update passed_pushStep)
  next
    case (Inr r)
    with t stepSwitch_keeps [of w st ?sr s r s1] show ?thesis
      by (simp add: runStep_def stepsOf_pushStep passed_pushStep)
  qed
qed

lemma runSteps_effect:
  "\<exists>rs. stepsOf (fst (runSteps w sts i fr s)) = stepsOf fr @ rs
        \<and> map stepNumber rs = [Suc i ..< Suc i + length sts]
        \<and> map stepAction rs = map action sts
        \<and> passed (fst (runSteps w sts i fr s)) = (passed fr \<and> list_all (\<lambda>r. stepError r = None) rs)
        \<and> list_all (\<lambda>r. stepError r \<noteq> None \<longrightarrow> \<not> stepPassed r) rs"
proof (induction sts arbitrary: i fr s)
  case Nil
  then show ?case by simp
next
  case (Cons st sts)
  obtain fr1 s1 where step: "runStep w st i fr s = (fr1, s1)" by (cases "runStep w st i fr s")
  from runStep_effect [of w st i fr s] step obtain r where
    r: "stepsOf fr1 = stepsOf fr @ [r]" "stepNumber r = i + 1" "stepAction r = action st"
       "passed fr1 = (passed fr \<and> stepError r = None)" "stepError r \<noteq> None \<longrightarrow> \<not> stepPassed r"
    by auto
  from Cons.IH [of "Suc i" fr1 s1] obtain rs where
    rs: "stepsOf (fst (runSteps w sts (Suc i) fr1 s1)) = stepsOf fr1 @ rs"
        "map stepNumber rs = [Suc (Suc i) ..< Suc (Suc i) + length sts]"
        "map stepAction rs = map action sts"
        "passed (fst (runSteps w sts (Suc i) fr1 s1)) = (passed fr1 \<and> list_all (\<lambda>r. stepError r = None) rs)"
        "list_all (\<lambda>r. stepError r \<noteq> None \<longrightarrow> \<not> stepPassed r) rs"
    by auto
  have upt: "[Suc i ..< Suc i + length (st # sts)] = Suc i # [Suc (Suc i) ..< Suc (Suc i) + length sts]"
    by (subst upt_rec) simp
  show ?case
    unfolding upt using step r rs by (intro exI [of _ "r # rs"]) auto
qed

lemma runUserFlow_effect:
  "\<exists>rs. stepsOf (fst (runUserFlow w fl s)) = rs
        \<and> map stepNumber rs = [1 ..< Suc (length (flowSteps fl))]
        \<and> map stepAction rs = map action (flowSteps fl)
        \<and> passed (fst (runUserFlow w fl s)) = list_all (\<lambda>r. stepError r = None) rs
        \<and> list_all (\<lambda>r. stepError r \<noteq> None \<longrightarrow> \<not> stepPassed r) rs"
proof -
  let ?fr0 = "\<lparr>testName = ''User Flow: '' @ name fl, passed = True, error = None,
               steps = Some [], details = NoDetails\<rparr>"
  obtain fr s1 where t: "runSteps w (flowSteps fl) 0 ?fr0 s = (fr, s1)"
    by (cases "runSteps w (flowSteps fl) 0 ?fr0 s")
  from runSteps_effect [of w "flowSteps fl" 0 ?fr0 s] t
  show ?thesis by (auto simp: runUserFlow_def stepsOf_def)
qed

text \<open>
  What the source does about the flow-level \<open>passed\<close>: it is false exactly when a step
  threw. Such a step is marked as failed, so a failed flow has a failed step.
\<close>

lemma flow_passed_iff_no_step_threw:
  "passed (fst (runUserFlow w fl s)) =
     list_all (\<lambda>r. stepError r = None) (stepsOf (fst (runUserFlow w fl s)))"
  using runUserFlow_effect [of w fl s] by auto

lemma failed_flow_has_failed_step:
  "\<not> passed (fst (runUserFlow w fl s)) \<Longrightarrow>
     list_ex (\<lambda>r. \<not> stepPassed r) (stepsOf (fst (runUserFlow w fl s)))"
  using runUserFlow_effect [of w fl s]
  by (auto simp: list_all_iff list_ex_iff)

text \<open>
  C2, at a failing input. A flow whose only step is a \<^verbatim>\<open>verify\<close> that finds no element:
  the step result has \<open>passed = false\<close> and no error, since nothing threw; the flow-level
  \<open>passed\<close> stays true and no user-flow issue is pushed. The claim asks for a flow-level
  \<open>passed = false\<close> here.
\<close>

theorem failed_verify_leaves_flow_passed:
  "map stepPassed (stepsOf (fst (runUserFlow quietWorld verifyFlow initialState))) = [False]
   \<and> map stepError (stepsOf (fst (runUserFlow quietWorld verifyFlow initialState))) = [None]
   \<and> map verified (stepsOf (fst (runUserFlow quietWorld verifyFlow initialState))) = [Some (None, Some ''Welcome'')]
   \<and> passed (fst (runUserFlow quietWorld verifyFlow initialState))
   \<and> issues (snd (runUserFlow quietWorld verifyFlow initialState)) = []"
  by (simp add: driver_defs probe_defs tool_defs example_defs stepsOf_def)

lemma view_tick: "view (tick s) = called (view s)"
  by (simp add: view_def tick_def called_def)

lemma view_push [simp]: "view (pushIssue i s) = view s" "view (pushResult r s) = view s"
  by (simp_all add: view_def pushIssue_def pushResult_def)

text \<open>One step against the driver: the switch makes the calls of the step and reports what they answered.\<close>

lemma stepSwitch_outcome:
  assumes "stepSwitch w st r s = (x, s')" and "\<not> stepPassed r"
  shows "view s' = viewAfterStep w st (view s)
         \<and> (case x of
               Inl e \<Rightarrow> stepThrows w st (view s) = Some e \<and> \<not> stepSucceeds w st (view s)
             | Inr r' \<Rightarrow> stepThrows w st (view s) = None
                        \<and> stepPassed r' = stepSucceeds w st (view s))"
proof (cases "action st")
  case goto
  with assms show ?thesis
    by (auto simp: stepSwitch_def stepThrows_def stepSucceeds_def viewAfterStep_def gotoTarget_def
          page_goto_def view_tick called_def view_def tick_def
          split: sum.splits option.splits)
next
  case click
  with assms show ?thesis
    by (auto simp: stepSwitch_def stepThrows_def stepSucceeds_def viewAfterStep_def call_def
          view_tick split: option.splits)
next
  case type
  with assms show ?thesis
    by (auto simp: stepSwitch_def stepThrows_def stepSucceeds_def viewAfterStep_def call_def
          view_tick split: option.splits)
next
  case wait
  with assms show ?thesis
    by (auto simp: stepSwitch_def stepThrows_def stepSucceeds_def viewAfterStep_def call_def
          view_tick split: option.splits)
next
  case screenshot
  with assms show ?thesis
    by (auto simp: stepSwitch_def stepThrows_def stepSucceeds_def viewAfterStep_def)
next
  case verify
  with assms show ?thesis
    by (auto simp: stepSwitch_def stepThrows_def stepSucceeds_def viewAfterStep_def textRead_def
          ask_def view_tick split: sum.splits option.splits)
qed

lemma runStep_outcome:
  "\<exists>r. stepsOf (fst (runStep w st i fr s)) = stepsOf fr @ [r]
       \<and> stepError r = stepThrows w st (view s)
       \<and> stepPassed r = stepSucceeds w st (view s)
       \<and> view (snd (runStep w st i fr s)) = viewAfterStep w st (view s)"
proof -
  let ?sr = "\<lparr>stepNumber = i + 1, stepAction = action st, stepSelector = selector st,
              stepValue = value st, stepPassed = False, stepError = None, verified = None\<rparr>"
  obtain x s1 where t: "stepSwitch w st ?sr s = (x, s1)" by (cases "stepSwitch w st ?sr s")
  from stepSwitch_outcome [OF t] have o: "view s1 = viewAfterStep w st (view s)"
    "case x of
       Inl e \<Rightarrow> stepThrows w st (view s) = Some e \<and> \<not> stepSucceeds w st (view s)
     | Inr r' \<Rightarrow> stepThrows w st (view s) = None \<and> stepPassed r' = stepSucceeds w st (view s)"
    by simp_all
  show ?thesis
  proof (cases x)
    case (Inl e)
    with t o show ?thesis
      by (simp add: runStep_def stepsOf_pushStep stepsOf_passed_update)
  next
    case (Inr r)
    with t o stepSwitch_keeps [of w st ?sr s r s1] show ?thesis
      by (simp add: runStep_def stepsOf_pushStep)
  qed
qed

lemma runSteps_outcome:
  "\<exists>rs. stepsOf (fst (runSteps w sts i fr s)) = stepsOf fr @ rs
        \<and> map stepError rs = map fst (expectedOutcomes w sts (view s))
        \<and> map stepPassed rs = map snd (expectedOutcomes w sts (view s))
        \<and> view (snd (runSteps w sts i fr s)) = viewAfterSteps w sts (view s)"
proof (induction sts arbitrary: i fr s)
  case Nil
  then show ?case by simp
next
  case (Cons st sts)
  obtain fr1 s1 where step: "runStep w st i fr s = (fr1, s1)" by (cases "runStep w st i fr s")
  from runStep_outcome [of w st i fr s] step obtain r where
    r: "stepsOf fr1 = stepsOf fr @ [r]" "stepError r = stepThrows w st (view s)"
       "stepPassed r = stepSucceeds w st (view s)" "view s1 = viewAfterStep w st (view s)"
    by auto
  from Cons.IH [of "Suc i" fr1 s1] obtain rs where
    rs: "stepsOf (fst (runSteps w sts (Suc i) fr1 s1)) = stepsOf fr1 @ rs"
        "map stepError rs = map fst (expectedOutcomes w sts (view s1))"
        "map stepPassed rs = map snd (expectedOutcomes w sts (view s1))"
        "view (snd (runSteps w sts (Suc i) fr1 s1)) = viewAfterSteps w sts (view s1)"
    by auto
  show ?case
    using step r rs by (intro exI [of _ "r # rs"]) simp
qed

lemma runUserFlow_outcome:
  "map stepError (stepsOf (fst (runUserFlow w fl s))) = map fst (expectedOutcomes w (flowSteps fl) (view s))
   \<and> map stepPassed (stepsOf (fst (runUserFlow w fl s))) = map snd (expectedOutcomes w (flowSteps fl) (view s))
   \<and> view (snd (runUserFlow w fl s)) = viewAfterSteps w (flowSteps fl) (view s)"
proof -
  let ?fr0 = "\<lparr>testName = ''User Flow: '' @ name fl, passed = True, error = None,
               steps = Some [], details = NoDetails\<rparr>"
  obtain fr s1 where t: "runSteps w (flowSteps fl) 0 ?fr0 s = (fr, s1)"
    by (cases "runSteps w (flowSteps fl) 0 ?fr0 s")
  from runSteps_outcome [of w "flowSteps fl" 0 ?fr0 s] t
  show ?thesis by (auto simp: runUserFlow_def stepsOf_def)
qed

text \<open>
  C3, as the source has it. A failing \<^verbatim>\<open>goto\<close> does not stop the flow: in the flow
  \<open>[goto, click]\<close> the navigation throws, and the \<^verbatim>\<open>click\<close> step still runs: it makes
  its two driver calls, three calls in all, and is recorded as passed.
\<close>

theorem failed_goto_does_not_stop_flow:
  "map stepAction (stepsOf (fst (runUserFlow homeOnlyWorld gotoFlow initialState))) = [goto, click]
   \<and> map stepError (stepsOf (fst (runUserFlow homeOnlyWorld gotoFlow initialState))) = [Some ''net::ERR_ABORTED'', None]
   \<and> map stepPassed (stepsOf (fst (runUserFlow homeOnlyWorld gotoFlow initialState))) = [False, True]
   \<and> ticks (snd (runUserFlow homeOnlyWorld gotoFlow initialState)) = 3"
  by (simp add: driver_defs probe_defs tool_defs example_defs stepsOf_def)

text \<open>
  C3, amended. Every step of a flow is executed and recorded, in order, whatever the
  steps before it did: no failure, of a \<^verbatim>\<open>goto\<close> or of any other step, skips the rest of
  the flow. The step results carry the numbers 1 to n and the actions of the steps; the
  error and the verdict of each are what the driver answers to the calls of that step,
  made from the browser as the calls of all the steps before it left it; and after the
  flow the browser is where the calls of all its steps lead.
\<close>

theorem every_step_is_executed:
  "map stepNumber (stepsOf (fst (runUserFlow w fl s))) = [1 ..< Suc (length (flowSteps fl))]
   \<and> map stepAction (stepsOf (fst (runUserFlow w fl s))) = map action (flowSteps fl)
   \<and> map stepError (stepsOf (fst (runUserFlow w fl s))) = map fst (expectedOutcomes w (flowSteps fl) (view s))
   \<and> map stepPassed (stepsOf (fst (runUserFlow w fl s))) = map snd (expectedOutcomes w (flowSteps fl) (view s))
   \<and> view (snd (runUserFlow w fl s)) = viewAfterSteps w (flowSteps fl) (view s)"
  using runUserFlow_effect [of w fl s] runUserFlow_outcome [of w fl s] by auto

theorem every_step_is_executed_witness:
  "map stepNumber (stepsOf (fst (runUserFlow homeOnlyWorld gotoFlow initialState))) = [1, 2]
   \<and> map stepError (stepsOf (fst (runUserFlow homeOnlyWorld gotoFlow initialState))) =
       [Some ''net::ERR_ABORTED'', None]
   \<and> map stepPassed (stepsOf (fst (runUserFlow homeOnlyWorld gotoFlow initialState))) = [False, True]
   \<and> view (snd (runUserFlow homeOnlyWorld gotoFlow initialState)) = (3, ''about:blank'', 800, 600)"
  using every_step_is_executed [of homeOnlyWorld gotoFlow initialState]
  by (simp add: example_defs view_def initialState_def stepThrows_def stepSucceeds_def
        viewAfterStep_def gotoTarget_def called_def upt_rec)

subsection \<open>Recommendations\<close>

text \<open>
  The counting object as a finite map: counting a category adds one to its entry, and a
  new key goes behind the others.
\<close>

lemma keys_countCategory:
  "fst ` set (countCategory cats c) = insert c (fst ` set cats)"
  by (induction cats c rule: countCategory.induct) auto

lemma distinct_countCategory:
  "distinct (map fst cats) \<Longrightarrow> distinct (map fst (countCategory cats c))"
proof (induction cats c rule: countCategory.induct)
  case (1 c)
  then show ?case by simp
next
  case (2 k n cats c)
  have "k \<notin> fst ` set (countCategory cats c)" if "k \<noteq> c"
    using that 2 keys_countCategory [of cats c] by auto
  with 2 show ?case by auto
qed

lemma map_of_countCategory:
  "map_of (countCategory cats c) k =
     (if k = c then Some (case map_of cats c of None \<Rightarrow> 1 | Some n \<Rightarrow> n + 1) else map_of cats k)"
  by (induction cats c rule: countCategory.induct) auto

lemma foldl_countCategory:
  "distinct (map fst cats) \<Longrightarrow> list_all (\<lambda>e. snd e > 0) cats \<Longrightarrow>
     distinct (map fst (foldl (\<lambda>cats i. countCategory cats (category i)) cats is))
     \<and> set (map fst (foldl (\<lambda>cats i. countCategory cats (category i)) cats is))
         = set (map fst cats) \<union> category ` set is
     \<and> list_all (\<lambda>e. snd e > 0) (foldl (\<lambda>cats i. countCategory cats (category i)) cats is)
     \<and> (\<forall>k. tally (foldl (\<lambda>cats i. countCategory cats (category i)) cats is) k
              = tally cats k + length (filter (\<lambda>i. category i = k) is))"
proof (induction "is" arbitrary: cats)
  case Nil
  then show ?case by simp
next
  case (Cons i "is")
  let ?cats = "countCategory cats (category i)"
  have d: "distinct (map fst ?cats)" using Cons.prems(1) by (rule distinct_countCategory)
  have p: "list_all (\<lambda>e. snd e > 0) ?cats"
    using Cons.prems(2) by (induction cats "category i" rule: countCategory.induct) auto
  have t: "tally ?cats k = tally cats k + (if category i = k then 1 else 0)" for k
    by (auto simp: tally_def map_of_countCategory split: option.splits)
  from Cons.IH [OF d p] show ?case
    by (simp add: keys_countCategory t)
qed

lemma categoryCounts_correct:
  "distinct (map fst (categoryCounts is))
   \<and> set (map fst (categoryCounts is)) = category ` set is
   \<and> (\<forall>c n. (c, n) \<in> set (categoryCounts is) \<longrightarrow> n = length (filter (\<lambda>i. category i = c) is))"
proof -
  from foldl_countCategory [of "[]" "is"]
  have d: "distinct (map fst (categoryCounts is))"
    and k: "set (map fst (categoryCounts is)) = category ` set is"
    and t: "\<And>c. tally (categoryCounts is) c = length (filter (\<lambda>i. category i = c) is)"
    by (simp_all add: categoryCounts_def tally_def)
  have "n = length (filter (\<lambda>i. category i = c) is)" if "(c, n) \<in> set (categoryCounts is)" for c n
  proof -
    from d that have "map_of (categoryCounts is) c = Some n" by simp
    with t [of c] show ?thesis by (simp add: tally_def)
  qed
  with d k show ?thesis by blast
qed

text \<open>
  C10. For an issue list and a summary that holds its counts, as the summary the tool
  computes does, the recommendations are, in this order: the critical banner if and only
  if some issue is critical, the major banner if and only if some issue is major, the
  minor banner if and only if some issue is minor, one line per entry of the category
  counts, and the positive line if and only if there is no issue at all. The category
  counts have exactly one entry per category that occurs among the issues, holding the
  number of issues of that category.
\<close>

theorem recommendations_ordered:
  assumes "issueCount sm = length is"
    and "criticalIssues sm = length (filter (\<lambda>i. severity i = critical) is)"
    and "majorIssues sm = length (filter (\<lambda>i. severity i = major) is)"
    and "minorIssues sm = length (filter (\<lambda>i. severity i = minor) is)"
  shows "generateQARecommendations is sm =
           (if list_ex (\<lambda>i. severity i = critical) is then [criticalBanner] else [])
           @ (if list_ex (\<lambda>i. severity i = major) is then [majorBanner] else [])
           @ (if list_ex (\<lambda>i. severity i = minor) is then [minorBanner] else [])
           @ map focusLine (categoryCounts is)
           @ (if is = [] then [excellentLine] else [])
         \<and> distinct (map fst (categoryCounts is))
         \<and> set (map fst (categoryCounts is)) = category ` set is
         \<and> length (categoryCounts is) = card (category ` set is)
         \<and> (\<forall>c n. (c, n) \<in> set (categoryCounts is) \<longrightarrow>
                n = length (filter (\<lambda>i. category i = c) is))"
proof -
  from categoryCounts_correct [of "is"] distinct_card [of "map fst (categoryCounts is)"]
  have "length (categoryCounts is) = card (category ` set is)" by simp
  with assms categoryCounts_correct [of "is"] show ?thesis
    by (simp add: generateQARecommendations_def filter_empty_conv list_ex_iff)
qed

theorem recommendations_ordered_witness:
  "issueCount (summarize [] exampleIssues) = length exampleIssues
   \<and> criticalIssues (summarize [] exampleIssues) = 1
   \<and> majorIssues (summarize [] exampleIssues) = 0
   \<and> minorIssues (summarize [] exampleIssues) = 2
   \<and> generateQARecommendations exampleIssues (summarize [] exampleIssues) =
       [criticalBanner, minorBanner, focusLine (Connectivity, 1), focusLine (UIUX, 2)]
   \<and> generateQARecommendations [] (summarize [] []) = [excellentLine]"
proof -
  have 1: "issueCount (summarize rs is) = length is"
    "criticalIssues (summarize rs is) = length (filter (\<lambda>i. severity i = critical) is)"
    "majorIssues (summarize rs is) = length (filter (\<lambda>i. severity i = major) is)"
    "minorIssues (summarize rs is) = length (filter (\<lambda>i. severity i = minor) is)"
    for rs "is"
    by (simp_all add: summarize_def)
  from recommendations_ordered [OF 1 [of "[]" exampleIssues]]
    recommendations_ordered [OF 1 [of "[]" "[]"]]
  show ?thesis
    by (simp add: 1 exampleIssues_def categoryCounts_def numeral_2_eq_2)
qed

subsection \<open>The trace of a report\<close>

lemma replicate_1_2:
  "replicate 1 x = [x]" "replicate 2 x = [x, x]"
  by (simp_all add: numeral_2_eq_2)

lemma unchanged_setViewport: "page_setViewport w vp s = (r, s1) \<Longrightarrow> appended s s1 [] []"
  by (auto simp: page_setViewport_def appended_def tick_def split: option.splits)

lemma grows_runNavigationTests_n:
  "\<exists>n. (n = 1 \<or> n = 2) \<and> grows s (runNavigationTests w u s) (replicate n ''Navigation Links Test'')"
proof -
  have "grows s (runNavigationTests w u s) (replicate 1 ''Navigation Links Test'')
        \<or> grows s (runNavigationTests w u s) (replicate 2 ''Navigation Links Test'')"
    using grows_runNavigationTests [of s w u] by (simp only: replicate_1_2)
  then show ?thesis by blast
qed

lemma grows_runFormTests_n:
  "\<exists>f. (f = 1 \<or> f = 2) \<and> grows s (runFormTests w u s) (replicate f ''Form Structure Check'')"
proof -
  have "grows s (runFormTests w u s) (replicate 1 ''Form Structure Check'')
        \<or> grows s (runFormTests w u s) (replicate 2 ''Form Structure Check'')"
    using grows_runFormTests [of s w u] by (simp only: replicate_1_2)
  then show ?thesis by blast
qed

lemma runSelectedSuite_names:
  assumes "runSelectedSuite w a s = (Inr x, s')"
  shows "\<exists>n f. (n = 1 \<or> n = 2) \<and> (f = 1 \<or> f = 2) \<and> grows s s' (suiteNames (testSuite a) n f)"
proof (cases "testSuite a")
  case basic
  with assms grows_runBasicTests [of s w "url a"] have "grows s s' (suiteNames (testSuite a) 1 1)"
    by (simp add: runSelectedSuite_def basicNames_def)
  then show ?thesis by blast
next
  case auth
  with assms grows_pushResult [of s "resultOk ''Authentication Tests'' True
      (AuthNote ''Auth tests not implemented - would test login/logout flows'')"]
  have "grows s s' (suiteNames (testSuite a) 1 1)"
    by (auto simp: runSelectedSuite_def)
  then show ?thesis by blast
next
  case forms
  with assms grows_runFormTests_n [of s w "url a"] show ?thesis
    by (auto simp: runSelectedSuite_def simp del: replicate.simps)
next
  case navigation
  with assms grows_runNavigationTests_n [of s w "url a"] show ?thesis
    by (auto simp: runSelectedSuite_def simp del: replicate.simps)
next
  case responsive
  with assms grows_runResponsiveTests [of s w "url a"] have "grows s s' (suiteNames (testSuite a) 1 1)"
    by (auto simp: runSelectedSuite_def)
  then show ?thesis by blast
next
  case comprehensive
  obtain r s1 where b: "runBasicTests w (url a) s = (r, s1)" by (cases "runBasicTests w (url a) s")
  let ?s2 = "runNavigationTests w (url a) s1"
  let ?s3 = "runFormTests w (url a) ?s2"
  let ?s4 = "runResponsiveTests w (url a) ?s3"
  from assms comprehensive b have r: "r = Inr ()" and s': "s' = ?s4"
    by (cases r; simp add: runSelectedSuite_def)+
  from grows_runBasicTests [of s w "url a"] b r have 1: "grows s s1 basicNames"
    by (simp add: basicNames_def)
  from grows_runNavigationTests_n [of s1 w "url a"] obtain n
    where n: "n = 1 \<or> n = 2" and 2: "grows s1 ?s2 (replicate n ''Navigation Links Test'')"
    by blast
  from grows_runFormTests_n [of ?s2 w "url a"] obtain f
    where f: "f = 1 \<or> f = 2" and 3: "grows ?s2 ?s3 (replicate f ''Form Structure Check'')"
    by blast
  note 4 = grows_runResponsiveTests [of ?s3 w "url a"]
  from grows_trans [OF grows_trans [OF grows_trans [OF 1 2] 3] 4] comprehensive s'
  have "grows s s' (suiteNames (testSuite a) n f)" by simp
  with n f show ?thesis by blast
qed

lemma session_trace:
  assumes "session w a s = (Inr out, s')"
  shows "\<exists>n f. (n = 1 \<or> n = 2) \<and> (f = 1 \<or> f = 2)
           \<and> grows (connectivityCheck w (url a) ((tick (tick s))\<lparr>pageViewport := viewport a\<rparr>)) s'
                (suiteNames (testSuite a) n f @ flowNames (userFlows a)
                 @ [''UI Quality Assessment'', ''Performance Assessment''])"
proof -
  obtain r1 s1 where c1: "call (w_newPage w) s = (r1, s1)" by (cases "call (w_newPage w) s")
  obtain r2 s2 where c2: "page_setViewport w (viewport a) s1 = (r2, s2)"
    by (cases "page_setViewport w (viewport a) s1")
  let ?s3 = "connectivityCheck w (url a) s2"
  obtain r4 s4 where c4: "runSelectedSuite w a ?s3 = (r4, s4)" by (cases "runSelectedSuite w a ?s3")
  let ?s5 = "runCustomFlows w (userFlows a) s4"
  obtain r6 s6 where c6: "assessUIQuality w ?s5 = (r6, s6)" by (cases "assessUIQuality w ?s5")
  from assms c1 have r1: "r1 = Inr ()" by (cases r1) (simp_all add: session_def)
  from assms c1 r1 c2 have r2: "r2 = Inr ()" by (cases r2) (simp_all add: session_def)
  from assms c1 r1 c2 r2 c4 have r4: "r4 = Inr ()" by (cases r4) (simp_all add: session_def)
  from assms c1 r1 c2 r2 c4 r4 c6 obtain ui where r6: "r6 = Inr ui"
    by (cases r6) (simp_all add: session_def)
  obtain r8 s8 where c8: "assessPerformance w (pushResult ui s6) = (r8, s8)"
    by (cases "assessPerformance w (pushResult ui s6)")
  from assms c1 r1 c2 r2 c4 r4 c6 r6 c8 obtain perf where r8: "r8 = Inr perf"
    by (cases r8) (simp_all add: session_def)
  from assms c1 r1 c2 r2 c4 r4 c6 r6 c8 r8 have s': "s' = pushResult perf s8"
    by (simp add: session_def Let_def)
  from c1 r1 have s1: "s1 = tick s" by (simp add: call_def split: option.splits)
  from c2 r2 s1 have s2: "s2 = (tick (tick s))\<lparr>pageViewport := viewport a\<rparr>"
    by (simp add: page_setViewport_def split: option.splits)
  from runSelectedSuite_names [of w a ?s3 "()" s4] c4 r4 obtain n f
    where nf: "n = 1 \<or> n = 2" "f = 1 \<or> f = 2" and 4: "grows ?s3 s4 (suiteNames (testSuite a) n f)"
    by auto
  have 5: "grows s4 ?s5 (flowNames (userFlows a))"
    using grows_runCustomFlows [of s4 w "userFlows a"] by (simp add: flowNames_def)
  have 6: "grows ?s5 s6 []" using grows_assessUIQuality [of ?s5 w] c6 by simp
  have 7: "grows s6 (pushResult ui s6) [''UI Quality Assessment'']"
    using grows_pushResult [of s6 ui] testName_assessUIQuality [of w ?s5 ui s6] c6 r6 by simp
  have 8: "grows (pushResult ui s6) s8 []"
    using grows_assessPerformance [of "pushResult ui s6" w] c8 by simp
  have 9: "grows s8 (pushResult perf s8) [''Performance Assessment'']"
    using grows_pushResult [of s8 perf] testName_assessPerformance [of w "pushResult ui s6" perf s8] c8 r8
    by simp
  from grows_trans [OF grows_trans [OF grows_trans [OF grows_trans [OF grows_trans [OF 4 5] 6] 7] 8] 9] s' s2
  have "grows (connectivityCheck w (url a) ((tick (tick s))\<lparr>pageViewport := viewport a\<rparr>)) s'
          (suiteNames (testSuite a) n f @ flowNames (userFlows a)
                 @ [''UI Quality Assessment'', ''Performance Assessment''])"
    by simp
  with nf show ?thesis by blast
qed

text \<open>
  The results and the issues of a report: the connectivity result first, with its issue
  when it failed, then what the suite, the flows and the assessments pushed.
\<close>

lemma report_trace:
  assumes "fst (functionalQATool w a) = Inr (Report sm rs is sc recs)"
  shows "\<exists>more n f.
           is = (if passed (fst (testConnectivity w (url a) (pageReady a))) then []
                 else [connectivityIssue (fst (testConnectivity w (url a) (pageReady a)))]) @ more
           \<and> list_all (\<lambda>i. category i \<noteq> Connectivity) more
           \<and> (n = 1 \<or> n = 2) \<and> (f = 1 \<or> f = 2)
           \<and> hd rs = fst (testConnectivity w (url a) (pageReady a))
           \<and> map testName rs = ''Connectivity Test'' # suiteNames (testSuite a) n f
                 @ flowNames (userFlows a) @ [''UI Quality Assessment'', ''Performance Assessment'']"
proof -
  from tool_report [OF assms] obtain s1 where
    l: "call (w_launch w) initialState = (Inr (), s1)"
    and r: "fst (session w a s1) = Inr (Report sm rs is sc recs)"
    and rs: "qaResults (snd (session w a s1)) = rs" and "is": "issues (snd (session w a s1)) = is"
    by blast
  from l have s1: "s1 = tick initialState" by (simp add: call_def split: option.splits)
  have ready: "(tick (tick s1))\<lparr>pageViewport := viewport a\<rparr> = pageReady a"
    by (simp add: s1 tick_def initialState_def pageReady_def)
  let ?c = "fst (testConnectivity w (url a) (pageReady a))"
  let ?ci = "if passed ?c then [] else [connectivityIssue ?c]"
  obtain s' where s': "session w a s1 = (Inr (Report sm rs is sc recs), s')"
    using r by (cases "session w a s1") simp
  from session_trace [OF s'] ready obtain n f where
    nf: "n = 1 \<or> n = 2" "f = 1 \<or> f = 2"
    and g: "grows (connectivityCheck w (url a) (pageReady a)) s'
              (suiteNames (testSuite a) n f @ flowNames (userFlows a)
               @ [''UI Quality Assessment'', ''Performance Assessment''])"
    by auto
  from connectivityCheck_effect [of "pageReady a" w "url a"]
  have c: "qaResults (connectivityCheck w (url a) (pageReady a)) = [?c]"
    "issues (connectivityCheck w (url a) (pageReady a)) = ?ci"
    by (simp_all add: appended_def pageReady_def)
  from g c rs "is" s' obtain rest more where
    parts: "rs = ?c # rest" "is = ?ci @ more" "list_all (\<lambda>i. category i \<noteq> Connectivity) more"
      "map testName rest = suiteNames (testSuite a) n f @ flowNames (userFlows a)
               @ [''UI Quality Assessment'', ''Performance Assessment'']"
    by (auto simp: grows_def appended_def)
  have name: "testName ?c = ''Connectivity Test''"
    by (simp add: testConnectivity_def resultError_def split: prod.splits sum.splits)
  from parts nf name show ?thesis by auto
qed

subsection \<open>The connectivity test\<close>

text \<open>
  C9, as the source has it. A server that answers the initial navigation with 201, a 2xx
  status: the connectivity test fails with the error \<open>HTTP 201\<close>, and one critical
  connectivity issue is recorded. The claim asks for a passing test and no issue here.
\<close>

theorem status_201_fails_connectivity:
  "\<not> passed (fst (testConnectivity createdWorld home initialState))
   \<and> error (fst (testConnectivity createdWorld home initialState)) = Some ''HTTP 201''
   \<and> map category (issues (connectivityCheck createdWorld home initialState)) = [Connectivity]
   \<and> map severity (issues (connectivityCheck createdWorld home initialState)) = [critical]
   \<and> map issue (issues (connectivityCheck createdWorld home initialState)) = [''HTTP 201'']"
  by (simp add: driver_defs probe_defs tool_defs example_defs showNat.simps digitChar_def)

text \<open>
  C9, amended. The connectivity test passes exactly when the initial navigation returns
  a response whose status is 200: it fails when the navigation throws (a timeout, a
  refused connection), when the response is null and for every other status, 2xx and 3xx
  included. The connectivity result is pushed in either case; a failed test pushes
  exactly one issue, critical and of the connectivity category, and a passed test pushes
  none.
\<close>

theorem connectivity_passes_iff_status_200:
  "passed (fst (testConnectivity w u s)) = (\<exists>r. w_goto w (view s) u = Inr (Some r) \<and> status r = 200)
   \<and> qaResults (connectivityCheck w u s) = qaResults s @ [fst (testConnectivity w u s)]
   \<and> issues (connectivityCheck w u s) =
       issues s @ (if passed (fst (testConnectivity w u s)) then []
                   else [connectivityIssue (fst (testConnectivity w u s))])
   \<and> severity (connectivityIssue (fst (testConnectivity w u s))) = critical
   \<and> category (connectivityIssue (fst (testConnectivity w u s))) = Connectivity"
proof -
  have "passed (fst (testConnectivity w u s)) = (\<exists>r. w_goto w (view s) u = Inr (Some r) \<and> status r = 200)"
    by (cases "w_goto w (view s) u")
       (auto simp: testConnectivity_def page_goto_def resultError_def)
  with connectivityCheck_effect [of s w u] show ?thesis
    by (simp add: appended_def connectivityIssue_def)
qed

theorem connectivity_passes_iff_status_200_witness:
  "passed (fst (testConnectivity quietWorld home initialState))
   \<and> issues (connectivityCheck quietWorld home initialState) = []
   \<and> \<not> passed (fst (testConnectivity downWorld home initialState))
   \<and> map category (issues (connectivityCheck downWorld home initialState)) = [Connectivity]
   \<and> map issue (issues (connectivityCheck downWorld home initialState)) = [''net::ERR_CONNECTION_REFUSED'']"
  using connectivity_passes_iff_status_200 [of quietWorld home initialState]
    connectivity_passes_iff_status_200 [of downWorld home initialState]
  by (simp add: example_defs view_def initialState_def connectivityIssue_def testConnectivity_def
        page_goto_def resultError_def)

subsection \<open>A failed connectivity test does not stop the run\<close>

text \<open>
  C1, as the source has it. No server, suite \<open>basic\<close>: the connectivity test fails and one
  connectivity issue is recorded, but the probes of the suite and both assessments run
  all the same, so the report holds five more results after the connectivity test.
\<close>

theorem probes_run_after_failed_connectivity:
  "\<not> passed (hd (reportResults (fst (functionalQATool downWorld (exampleArgs basic [])))))
   \<and> map testName (reportResults (fst (functionalQATool downWorld (exampleArgs basic [])))) =
       [''Connectivity Test'', ''Page Title Check'', ''Broken Images Check'',
        ''JavaScript Errors Check'', ''UI Quality Assessment'', ''Performance Assessment'']
   \<and> map category (reportIssues (fst (functionalQATool downWorld (exampleArgs basic [])))) = [Connectivity]"
  by (simp add: driver_defs probe_defs tool_defs example_defs)

text \<open>
  C1, amended. When the tool returns a report and the initial navigation had failed,
  the issues hold exactly one issue of the connectivity category; it is critical and
  the first issue. The probes are not skipped: the results begin with the failed
  connectivity test, followed by the results of the selected suite, of the custom flows
  and of the two assessments.
\<close>

theorem failed_connectivity_report:
  assumes "fst (functionalQATool w a) = Inr (Report sm rs is sc recs)"
    and "\<not> passed (fst (testConnectivity w (url a) (pageReady a)))"
  shows "hd rs = fst (testConnectivity w (url a) (pageReady a))
         \<and> filter (\<lambda>i. category i = Connectivity) is = [connectivityIssue (hd rs)]
         \<and> hd is = connectivityIssue (hd rs)
         \<and> severity (connectivityIssue (hd rs)) = critical
         \<and> (\<exists>n f. (n = 1 \<or> n = 2) \<and> (f = 1 \<or> f = 2)
               \<and> map testName rs = ''Connectivity Test'' # suiteNames (testSuite a) n f
                     @ flowNames (userFlows a) @ [''UI Quality Assessment'', ''Performance Assessment''])"
proof -
  let ?c = "fst (testConnectivity w (url a) (pageReady a))"
  from report_trace [OF assms(1)] obtain more n f where
    t: "is = (if passed ?c then [] else [connectivityIssue ?c]) @ more
        \<and> list_all (\<lambda>i. category i \<noteq> Connectivity) more
        \<and> (n = 1 \<or> n = 2) \<and> (f = 1 \<or> f = 2)
        \<and> hd rs = ?c
        \<and> map testName rs = ''Connectivity Test'' # suiteNames (testSuite a) n f
            @ flowNames (userFlows a) @ [''UI Quality Assessment'', ''Performance Assessment'']"
    by (elim exE) (rule that)
  from t assms(2) have i: "is = connectivityIssue ?c # more" by simp
  from t have m: "filter (\<lambda>i. category i = Connectivity) more = []"
    by (simp add: list_all_iff filter_empty_conv)
  have c: "category (connectivityIssue ?c) = Connectivity" "severity (connectivityIssue ?c) = critical"
    by (simp_all add: connectivityIssue_def)
  from t have hd: "hd rs = ?c" by (elim conjE)
  from t have names: "\<exists>n f. (n = 1 \<or> n = 2) \<and> (f = 1 \<or> f = 2)
               \<and> map testName rs = ''Connectivity Test'' # suiteNames (testSuite a) n f
                     @ flowNames (userFlows a) @ [''UI Quality Assessment'', ''Performance Assessment'']"
    by (intro exI [of _ n] exI [of _ f]) (elim conjE, intro conjI)
  from i m c hd have "hd rs = ?c
         \<and> filter (\<lambda>i. category i = Connectivity) is = [connectivityIssue (hd rs)]
         \<and> hd is = connectivityIssue (hd rs)
         \<and> severity (connectivityIssue (hd rs)) = critical"
    by simp
  with names show ?thesis by (elim conjE, intro conjI)
qed

theorem failed_connectivity_report_witness:
  "fst (functionalQATool downWorld (exampleArgs basic [])) =
     Inr (Report \<lparr>totalTests = 6, passedTests = 5, failedTests = 1, issueCount = 1,
                   criticalIssues = 1, majorIssues = 0, minorIssues = 0\<rparr>
            (qaResults (snd (functionalQATool downWorld (exampleArgs basic []))))
            (issues (snd (functionalQATool downWorld (exampleArgs basic [])))) []
            [criticalBanner, focusLine (Connectivity, 1)])
   \<and> \<not> passed (fst (testConnectivity downWorld (url (exampleArgs basic []))
                       (pageReady (exampleArgs basic []))))
   \<and> filter (\<lambda>i. category i = Connectivity) (issues (snd (functionalQATool downWorld (exampleArgs basic [])))) =
       [connectivityIssue (hd (qaResults (snd (functionalQATool downWorld (exampleArgs basic [])))))]
   \<and> length (qaResults (snd (functionalQATool downWorld (exampleArgs basic [])))) = 6"
proof -
  have run: "fst (functionalQATool downWorld (exampleArgs basic [])) =
     Inr (Report \<lparr>totalTests = 6, passedTests = 5, failedTests = 1, issueCount = 1,
                   criticalIssues = 1, majorIssues = 0, minorIssues = 0\<rparr>
            (qaResults (snd (functionalQATool downWorld (exampleArgs basic []))))
            (issues (snd (functionalQATool downWorld (exampleArgs basic [])))) []
            [criticalBanner, focusLine (Connectivity, 1)])"
    by (simp add: driver_defs probe_defs tool_defs example_defs)
  have down: "\<not> passed (fst (testConnectivity downWorld (url (exampleArgs basic []))
                       (pageReady (exampleArgs basic []))))"
    by (simp add: driver_defs probe_defs example_defs pageReady_def)
  have len: "length (qaResults (snd (functionalQATool downWorld (exampleArgs basic [])))) = 6"
    by (simp add: driver_defs probe_defs tool_defs example_defs)
  from failed_connectivity_report [OF run down] run down len show ?thesis by simp
qed

subsection \<open>The order of a comprehensive run\<close>




subsection \<open>The navigation probe\<close>





subsection \<open>Which probe pushes which category\<close>





lemma keeps_pushResult [simp]: "issues (pushResult r s) = issues s"
  by (simp add: pushResult_def)


















subsection \<open>Decimal texts tell numbers apart\<close>





subsection \<open>Accessibility findings\<close>











text \<open>
  An input whose \<^verbatim>\<open>id\<close> holds a double quote: the lookup of its label throws in the
  page, the form probe ends in its \<^verbatim>\<open>catch\<close> block with a second, failed result, and
  no issue is pushed for the input.
\<close>

lemma quoted_id_ends_form_probe:
  "findUnlabelled quoteDom = Inl ''SyntaxError: not a valid selector''
   \<and> map testName (qaResults (runFormTests quoteWorld home (atHome forms))) =
       [''Form Structure Check'', ''Form Structure Check'']
   \<and> map passed (qaResults (runFormTests quoteWorld home (atHome forms))) = [True, False]
   \<and> issues (runFormTests quoteWorld home (atHome forms)) = []"
  by (simp add: driver_defs probe_defs example_defs atHome_def pageReady_def quoteDom_def
        quoteWorld_def unlabelled_def)




end
